theory Spec2Isabelle
  imports Main "HOL-Library.AList"
begin

section \<open>Hash commands of the key-value store (db/database/hash.go)\<close>

text \<open>
  The development embeds the executors and undo generators of \<^verbatim>\<open>hash.go\<close> over an explicit
  database state. An executor takes the state and the argument list (the command name
  already removed) and returns what the Go function returns together with the state it
  leaves behind. A Go panic (an index out of range, a failed single-value type assertion)
  is the outcome \<open>Panics\<close>.
\<close>

subsection \<open>Go library functions used by the executors\<close>

type_synonym bytes = string

text \<open>
  \<^verbatim>\<open>strings.ToLower\<close>: on an all-ASCII string it maps \<open>A..Z\<close> to \<open>a..z\<close> byte by byte. On
  any other string Go lowers each rune with its Unicode tables; these are not modelled and
  are the field \<open>unicode_ToLower\<close> of the library parameter below.
  The decimal numbers of \<^verbatim>\<open>github.com/shopspring/decimal\<close> are the rest of the parameter.
\<close>

record 'd golib =
  unicode_ToLower :: "string \<Rightarrow> string"
  decimal_NewFromString :: "string \<Rightarrow> 'd option"
  decimal_Add :: "'d \<Rightarrow> 'd \<Rightarrow> 'd"
  decimal_String :: "'d \<Rightarrow> string"

fun is_ascii :: "char \<Rightarrow> bool" where
  "is_ascii (Char b0 b1 b2 b3 b4 b5 b6 b7) = (\<not> b7)"

definition ascii_lower :: "char \<Rightarrow> char" where
  "ascii_lower c =
     (if 65 \<le> (of_char c :: nat) \<and> (of_char c :: nat) \<le> 90
      then (case c of Char b0 b1 b2 b3 b4 b5 b6 b7 \<Rightarrow> Char b0 b1 b2 b3 b4 True b6 b7)
      else c)"

definition strings_ToLower :: "'d golib \<Rightarrow> string \<Rightarrow> string" where
  "strings_ToLower L s =
     (if list_all is_ascii s then map ascii_lower s else unicode_ToLower L s)"

text \<open>
  \<^verbatim>\<open>strconv.ParseInt(s, 10, 64)\<close>: an optional sign, then one or more decimal digits, and
  the value within the signed 64-bit range; \<open>None\<close> is any error.
\<close>

definition digit_val :: "char \<Rightarrow> nat option" where
  "digit_val c =
     (if 48 \<le> (of_char c :: nat) \<and> (of_char c :: nat) \<le> 57
      then Some (of_char c - 48) else None)"

fun parse_digits :: "nat \<Rightarrow> string \<Rightarrow> nat option" where
  "parse_digits acc [] = Some acc"
| "parse_digits acc (c # cs) =
     (case digit_val c of None \<Rightarrow> None | Some dv \<Rightarrow> parse_digits (10 * acc + dv) cs)"

definition ParseUint :: "string \<Rightarrow> nat option" where
  "ParseUint s = (if s = [] then None else parse_digits 0 s)"

definition ParseInt :: "string \<Rightarrow> int option" where
  "ParseInt s =
     (case s of
        [] \<Rightarrow> None
      | c # cs \<Rightarrow>
          (let neg = (c = CHR ''-'');
               body = (if c = CHR ''+'' \<or> c = CHR ''-'' then cs else s)
           in case ParseUint body of
                None \<Rightarrow> None
              | Some un \<Rightarrow>
                  if \<not> neg \<and> un \<ge> 2 ^ 63 then None
                  else if neg \<and> un > 2 ^ 63 then None
                  else Some (if neg then - int un else int un)))"

text \<open>\<^verbatim>\<open>strconv.FormatInt(v, 10)\<close>.\<close>

definition digit_char :: "nat \<Rightarrow> char" where
  "digit_char n = ''0123456789'' ! n"

fun format_nat :: "nat \<Rightarrow> string" where
  "format_nat n =
     (if n < 10 then [digit_char n] else format_nat (n div 10) @ [digit_char (n mod 10)])"

declare format_nat.simps [simp del]

definition FormatInt :: "int \<Rightarrow> string" where
  "FormatInt v = (if v < 0 then CHR ''-'' # format_nat (nat (- v)) else format_nat (nat v))"

text \<open>Arithmetic on \<^verbatim>\<open>int64\<close> (and on \<^verbatim>\<open>int\<close>, taken as 64 bits wide) wraps around.\<close>

definition wrap64 :: "int \<Rightarrow> int" where
  "wrap64 x = (x + 2 ^ 63) mod 2 ^ 64 - 2 ^ 63"

subsection \<open>Data model\<close>

text \<open>
  A dict stores values of type \<^verbatim>\<open>interface{}\<close>. The executors store Go strings
  (\<^verbatim>\<open>execHSet\<close>) and byte slices (all other writers) and read with type assertions to
  \<^verbatim>\<open>[]byte\<close>, so the dynamic type of a stored value is part of the model.
\<close>

datatype anyval = GoString string | GoBytes bytes

fun val_bytes :: "anyval \<Rightarrow> bytes" where
  "val_bytes (GoString s) = s"
| "val_bytes (GoBytes b) = b"

text \<open>The comma-ok assertion \<^verbatim>\<open>v, _ := raw.([]byte)\<close>: \<open>None\<close> is the nil slice.\<close>

fun as_bytes :: "anyval \<Rightarrow> bytes option" where
  "as_bytes (GoBytes b) = Some b"
| "as_bytes (GoString s) = None"

type_synonym Dict = "(string \<times> anyval) list"

text \<open>
  The payload of an entity: a dict, or the payload of another command family (those
  families are outside \<^verbatim>\<open>hash.go\<close>; only "is not a dict" matters here).
\<close>

datatype entity_data = DictData Dict | BytesData bytes | ListData "bytes list"

datatype DataEntity = DataEntity (Data: entity_data)

type_synonym CmdLine = "bytes list"

record DB =
  data :: "string \<rightharpoonup> DataEntity"
  aof :: "CmdLine list"

text \<open>
  Modelled from the spec: the reply values of package \<^verbatim>\<open>protocol\<close> (section 6: integer,
  bulk, multi-bulk, status and typed error replies), one constructor per constructor
  function or reply struct that \<^verbatim>\<open>hash.go\<close> uses. A nil byte slice is \<open>None\<close>.
  \<open>ArgNumErrReply\<close> and \<open>UnknownCommandErrReply\<close> are the dispatcher's ArityError and
  UnknownCommand of section 7.
\<close>

datatype Reply =
    IntReply int
  | BulkReply "bytes option"
  | NullBulkReply
  | MultiBulkReply "bytes option list"
  | EmptyMultiBulkReply
  | OkReply
  | StandardErrReply string
  | SyntaxErrReply
  | WrongTypeErrReply
  | ArgNumErrReply string
  | UnknownCommandErrReply string

fun isErrorReply :: "Reply \<Rightarrow> bool" where
  "isErrorReply (StandardErrReply m) = True"
| "isErrorReply SyntaxErrReply = True"
| "isErrorReply WrongTypeErrReply = True"
| "isErrorReply (ArgNumErrReply n) = True"
| "isErrorReply (UnknownCommandErrReply n) = True"
| "isErrorReply r = False"

datatype outcome = Returns Reply | Panics

subsection \<open>The dict (package dict)\<close>

text \<open>
  Modelled from the spec: \<^verbatim>\<open>dict.Dict\<close> and \<^verbatim>\<open>dict.MakeSimple\<close> are defined outside
  \<^verbatim>\<open>hash.go\<close>. Section 4.1 gives the contract: get, put (1 if the field is newly created,
  else 0, overwriting),
  put-if-absent (1 if created, else 0 and no change), remove (1 if removed, else 0), len,
  for-each in an implementation-defined order. The model is an association list with
  distinct field names; a new field goes to the end and for-each visits the list in order.
\<close>

definition MakeSimple :: Dict where
  "MakeSimple = []"

text \<open>Modelled from the spec: \<open>get(field) -> value | absent\<close>.\<close>

definition Get :: "Dict \<Rightarrow> string \<Rightarrow> anyval option" where
  "Get d field = map_of d field"

text \<open>
  Modelled from the spec: \<open>put(field, value) -> 1 if field newly created else 0\<close>,
  overwriting.
\<close>

definition Put :: "Dict \<Rightarrow> string \<Rightarrow> anyval \<Rightarrow> Dict \<times> int" where
  "Put d field v = (AList.update field v d, if map_of d field = None then 1 else 0)"

text \<open>
  Modelled from the spec: \<open>put_if_absent(field, value) -> 1 if created else 0\<close>, no change
  if present.
\<close>

definition PutIfAbsent :: "Dict \<Rightarrow> string \<Rightarrow> anyval \<Rightarrow> Dict \<times> int" where
  "PutIfAbsent d field v =
     (if map_of d field = None then (d @ [(field, v)], 1) else (d, 0))"

text \<open>Modelled from the spec: \<open>remove(field) -> 1 if removed else 0\<close>.\<close>

definition Remove :: "Dict \<Rightarrow> string \<Rightarrow> Dict \<times> int" where
  "Remove d field = (AList.delete field d, if map_of d field = None then 0 else 1)"

text \<open>Modelled from the spec: \<open>len() -> count of fields\<close>.\<close>

definition Len :: "Dict \<Rightarrow> int" where
  "Len d = int (length d)"

text \<open>
  Modelled from the spec: the two sampling methods (sections 3, 4.1 and 8).
  \<^verbatim>\<open>RandomDistinctKeys(n)\<close> returns \<open>min(n, m)\<close> unique fields of a dict of size \<open>m\<close>;
  \<^verbatim>\<open>RandomKeys(n)\<close> returns exactly \<open>n\<close> field names, which may repeat, and none when the
  dict is empty. The contract is given for \<open>n \<ge> 0\<close> only: for a negative limit the model
  has no result (\<open>None\<close>). The random choices are the parameter \<open>rnd\<close>: its \<open>i\<close>-th value
  picks the \<open>i\<close>-th sample.
\<close>

type_synonym rng = "nat \<Rightarrow> nat"

fun pick_distinct :: "rng \<Rightarrow> string list \<Rightarrow> nat \<Rightarrow> string list" where
  "pick_distinct rnd ks 0 = []"
| "pick_distinct rnd [] (Suc n) = []"
| "pick_distinct rnd (k # ks) (Suc n) =
     (let i = rnd n mod length (k # ks)
      in (k # ks) ! i # pick_distinct rnd (take i (k # ks) @ drop (Suc i) (k # ks)) n)"

definition RandomDistinctKeys :: "rng \<Rightarrow> Dict \<Rightarrow> int \<Rightarrow> string list option" where
  "RandomDistinctKeys rnd d limit =
     (if limit < 0 then None else Some (pick_distinct rnd (map fst d) (nat limit)))"

definition RandomKeys :: "rng \<Rightarrow> Dict \<Rightarrow> int \<Rightarrow> string list option" where
  "RandomKeys rnd d limit =
     (if limit < 0 then None
      else if d = [] then Some []
      else Some (map (\<lambda>i. fst (d ! (rnd i mod length d))) [0..<nat limit]))"

subsection \<open>The keyspace store and the durability sink\<close>

text \<open>
  Modelled from the spec: \<^verbatim>\<open>DB.GetEntity\<close>, \<^verbatim>\<open>DB.PutEntity\<close>, \<^verbatim>\<open>DB.Remove\<close> (section 4.2:
  lookup, unconditional upsert, delete and no-op if absent) and \<^verbatim>\<open>DB.addAof\<close> (section
  4.5: append the command line to the log) are defined outside \<^verbatim>\<open>hash.go\<close>.
\<close>

definition makeDB :: DB where
  "makeDB = \<lparr>data = Map.empty, aof = []\<rparr>"

text \<open>Modelled from the spec: \<open>get_entity(key) -> Entity | absent\<close>.\<close>

definition GetEntity :: "DB \<Rightarrow> string \<Rightarrow> DataEntity option" where
  "GetEntity db key = data db key"

text \<open>Modelled from the spec: \<open>put_entity(key, entity)\<close>, an unconditional upsert.\<close>

definition PutEntity :: "DB \<Rightarrow> string \<Rightarrow> DataEntity \<Rightarrow> DB" where
  "PutEntity db key entity = db\<lparr>data := (data db)(key \<mapsto> entity)\<rparr>"

text \<open>
  Modelled from the spec: \<^verbatim>\<open>DB.Remove\<close>, \<open>remove(key)\<close>: deletes the key, no-op if
  absent.
\<close>

definition RemoveKey :: "DB \<Rightarrow> string \<Rightarrow> DB" where
  "RemoveKey db key = db\<lparr>data := (data db)(key := None)\<rparr>"

text \<open>Modelled from the spec: \<open>append(cmdline)\<close> of the durability sink.\<close>

definition addAof :: "DB \<Rightarrow> CmdLine \<Rightarrow> DB" where
  "addAof db line = db\<lparr>aof := aof db @ [line]\<rparr>"

text \<open>
  Modelled from the spec: \<^verbatim>\<open>utils.ToCmdLine3\<close> builds the canonical command line, the
  command name followed by the arguments (section 3, CmdLine).
\<close>

definition ToCmdLine3 :: "string \<Rightarrow> bytes list \<Rightarrow> CmdLine" where
  "ToCmdLine3 name args = name # args"

text \<open>
  A dict is held by reference: a mutation through the variable \<^verbatim>\<open>d\<close> of an executor is a
  mutation of the entity stored under the key. \<open>storeDict\<close> writes the mutated dict back.
\<close>

definition storeDict :: "DB \<Rightarrow> string \<Rightarrow> Dict \<Rightarrow> DB" where
  "storeDict db key d = db\<lparr>data := (data db)(key \<mapsto> DataEntity (DictData d))\<rparr>"

definition getAsDict :: "DB \<Rightarrow> string \<Rightarrow> Reply + Dict option" where
  "getAsDict db key =
     (case GetEntity db key of
        None \<Rightarrow> Inr None
      | Some entity \<Rightarrow>
          (case Data entity of
             DictData d \<Rightarrow> Inr (Some d)
           | _ \<Rightarrow> Inl WrongTypeErrReply))"

definition getOrInitDict :: "DB \<Rightarrow> string \<Rightarrow> Reply + (Dict \<times> bool \<times> DB)" where
  "getOrInitDict db key =
     (case getAsDict db key of
        Inl errReply \<Rightarrow> Inl errReply
      | Inr None \<Rightarrow>
          Inr (MakeSimple, True, PutEntity db key (DataEntity (DictData MakeSimple)))
      | Inr (Some d) \<Rightarrow> Inr (d, False, db))"

subsection \<open>Executors and undo generators\<close>

definition execHSet :: "DB \<Rightarrow> bytes list \<Rightarrow> outcome \<times> DB" where
  "execHSet db args =
     (case args of
        key # field # val # rest \<Rightarrow>
          (case getOrInitDict db key of
             Inl errReply \<Rightarrow> (Returns errReply, db)
           | Inr (d, init, db1) \<Rightarrow>
               (let (d', res) = Put d field (GoString val);
                    db2 = storeDict db1 key d';
                    db3 = addAof db2 (ToCmdLine3 ''hset'' args)
                in (Returns (IntReply res), db3)))
      | _ \<Rightarrow> (Panics, db))"

definition execHSetNX :: "DB \<Rightarrow> bytes list \<Rightarrow> outcome \<times> DB" where
  "execHSetNX db args =
     (case args of
        key # field # val # rest \<Rightarrow>
          (case getOrInitDict db key of
             Inl errReply \<Rightarrow> (Returns errReply, db)
           | Inr (d, init, db1) \<Rightarrow>
               (let (d', result) = PutIfAbsent d field (GoBytes val);
                    db2 = storeDict db1 key d';
                    db3 = (if result > 0 then addAof db2 (ToCmdLine3 ''hsetnx'' args) else db2)
                in (Returns (IntReply result), db3)))
      | _ \<Rightarrow> (Panics, db))"

definition execHGet :: "DB \<Rightarrow> bytes list \<Rightarrow> outcome \<times> DB" where
  "execHGet db args =
     (case args of
        key # field # rest \<Rightarrow>
          (case getAsDict db key of
             Inl errReply \<Rightarrow> (Returns errReply, db)
           | Inr None \<Rightarrow> (Returns NullBulkReply, db)
           | Inr (Some d) \<Rightarrow>
               (case Get d field of
                  None \<Rightarrow> (Returns NullBulkReply, db)
                | Some raw \<Rightarrow> (Returns (BulkReply (as_bytes raw)), db)))
      | _ \<Rightarrow> (Panics, db))"

definition execHExists :: "DB \<Rightarrow> bytes list \<Rightarrow> outcome \<times> DB" where
  "execHExists db args =
     (case args of
        key # field # rest \<Rightarrow>
          (case getAsDict db key of
             Inl errReply \<Rightarrow> (Returns errReply, db)
           | Inr None \<Rightarrow> (Returns (IntReply 0), db)
           | Inr (Some d) \<Rightarrow>
               (case Get d field of
                  Some raw \<Rightarrow> (Returns (IntReply 1), db)
                | None \<Rightarrow> (Returns (IntReply 0), db)))
      | _ \<Rightarrow> (Panics, db))"

text \<open>The loop of \<^verbatim>\<open>execHDel\<close>: remove each field, adding up the results.\<close>

definition removeFields :: "string list \<Rightarrow> Dict \<times> int \<Rightarrow> Dict \<times> int" where
  "removeFields flds start =
     fold (\<lambda>field (d, deleted). (let (d', result) = Remove d field in (d', deleted + result)))
       flds start"

definition execHDel :: "DB \<Rightarrow> bytes list \<Rightarrow> outcome \<times> DB" where
  "execHDel db args =
     (case args of
        [] \<Rightarrow> (Panics, db)
      | key # flds \<Rightarrow>
          (case getAsDict db key of
             Inl errReply \<Rightarrow> (Returns errReply, db)
           | Inr None \<Rightarrow> (Returns (IntReply 0), db)
           | Inr (Some d) \<Rightarrow>
               (let (d', deleted) = removeFields flds (d, 0);
                    db1 = storeDict db key d';
                    db2 = (if Len d' = 0 then RemoveKey db1 key else db1);
                    db3 = (if deleted > 0 then addAof db2 (ToCmdLine3 ''hdel'' args) else db2)
                in (Returns (IntReply deleted), db3))))"

definition execHLen :: "DB \<Rightarrow> bytes list \<Rightarrow> outcome \<times> DB" where
  "execHLen db args =
     (case args of
        [] \<Rightarrow> (Panics, db)
      | key # rest \<Rightarrow>
          (case getAsDict db key of
             Inl errReply \<Rightarrow> (Returns errReply, db)
           | Inr None \<Rightarrow> (Returns (IntReply 0), db)
           | Inr (Some d) \<Rightarrow> (Returns (IntReply (Len d)), db)))"

definition execHStrLen :: "DB \<Rightarrow> bytes list \<Rightarrow> outcome \<times> DB" where
  "execHStrLen db args =
     (case args of
        key # field # rest \<Rightarrow>
          (case getAsDict db key of
             Inl errReply \<Rightarrow> (Returns errReply, db)
           | Inr None \<Rightarrow> (Returns (IntReply 0), db)
           | Inr (Some d) \<Rightarrow>
               (case Get d field of
                  Some raw \<Rightarrow>
                    (Returns (IntReply (case as_bytes raw of None \<Rightarrow> 0
                                         | Some b \<Rightarrow> int (length b))), db)
                | None \<Rightarrow> (Returns (IntReply 0), db)))
      | _ \<Rightarrow> (Panics, db))"

text \<open>
  \<^verbatim>\<open>execHMSet\<close> and \<^verbatim>\<open>undoHMSet\<close> read the fields at the odd and the values at the even
  positions of the argument list; with an odd number of arguments every index is in range.
\<close>

definition hmsetFields :: "bytes list \<Rightarrow> string list" where
  "hmsetFields args = map (\<lambda>i. args ! (2 * i + 1)) [0..<(length args - 1) div 2]"

definition hmsetValues :: "bytes list \<Rightarrow> bytes list" where
  "hmsetValues args = map (\<lambda>i. args ! (2 * i + 2)) [0..<(length args - 1) div 2]"

definition putFields :: "(string \<times> bytes) list \<Rightarrow> Dict \<Rightarrow> Dict" where
  "putFields fvs d = fold (\<lambda>(field, val) d. fst (Put d field (GoBytes val))) fvs d"

definition execHMSet :: "DB \<Rightarrow> bytes list \<Rightarrow> outcome \<times> DB" where
  "execHMSet db args =
     (if length args mod 2 \<noteq> 1 then (Returns SyntaxErrReply, db)
      else
        (case args of
           [] \<Rightarrow> (Panics, db)
         | key # rest \<Rightarrow>
             (let flds = hmsetFields args;
                  vals = hmsetValues args
              in case getOrInitDict db key of
                   Inl errReply \<Rightarrow> (Returns errReply, db)
                 | Inr (d, init, db1) \<Rightarrow>
                     (let d' = putFields (zip flds vals) d;
                          db2 = storeDict db1 key d';
                          db3 = addAof db2 (ToCmdLine3 ''hmset'' args)
                      in (Returns OkReply, db3)))))"

definition execHMGet :: "DB \<Rightarrow> bytes list \<Rightarrow> outcome \<times> DB" where
  "execHMGet db args =
     (case args of
        [] \<Rightarrow> (Panics, db)
      | key # flds \<Rightarrow>
          (case getAsDict db key of
             Inl errReply \<Rightarrow> (Returns errReply, db)
           | Inr None \<Rightarrow> (Returns (MultiBulkReply (replicate (length flds) None)), db)
           | Inr (Some d) \<Rightarrow>
               (Returns (MultiBulkReply
                  (map (\<lambda>field. case Get d field of None \<Rightarrow> None
                                 | Some v \<Rightarrow> as_bytes v) flds)), db)))"

definition execHKeys :: "DB \<Rightarrow> bytes list \<Rightarrow> outcome \<times> DB" where
  "execHKeys db args =
     (case args of
        [] \<Rightarrow> (Panics, db)
      | key # rest \<Rightarrow>
          (case getAsDict db key of
             Inl errReply \<Rightarrow> (Returns errReply, db)
           | Inr None \<Rightarrow> (Returns EmptyMultiBulkReply, db)
           | Inr (Some d) \<Rightarrow> (Returns (MultiBulkReply (map (\<lambda>(k, v). Some k) d)), db)))"

definition execHVals :: "DB \<Rightarrow> bytes list \<Rightarrow> outcome \<times> DB" where
  "execHVals db args =
     (case args of
        [] \<Rightarrow> (Panics, db)
      | key # rest \<Rightarrow>
          (case getAsDict db key of
             Inl errReply \<Rightarrow> (Returns errReply, db)
           | Inr None \<Rightarrow> (Returns EmptyMultiBulkReply, db)
           | Inr (Some d) \<Rightarrow> (Returns (MultiBulkReply (map (\<lambda>(k, v). as_bytes v) d)), db)))"

definition execHGetAll :: "DB \<Rightarrow> bytes list \<Rightarrow> outcome \<times> DB" where
  "execHGetAll db args =
     (case args of
        [] \<Rightarrow> (Panics, db)
      | key # rest \<Rightarrow>
          (case getAsDict db key of
             Inl errReply \<Rightarrow> (Returns errReply, db)
           | Inr None \<Rightarrow> (Returns EmptyMultiBulkReply, db)
           | Inr (Some d) \<Rightarrow>
               (Returns (MultiBulkReply (concat (map (\<lambda>(k, v). [Some k, as_bytes v]) d))), db)))"

text \<open>
  \<^verbatim>\<open>execHIncrBy\<close> reads the stored value with the single-value assertion
  \<^verbatim>\<open>value.([]byte)\<close>, which panics on a value that is not a byte slice.
\<close>

definition execHIncrBy :: "DB \<Rightarrow> bytes list \<Rightarrow> outcome \<times> DB" where
  "execHIncrBy db args =
     (case args of
        key # field # rawDelta # rest \<Rightarrow>
          (case ParseInt rawDelta of
             None \<Rightarrow> (Returns (StandardErrReply ''ERR value is not an integer or out of range''), db)
           | Some delta \<Rightarrow>
               (case getOrInitDict db key of
                  Inl errReply \<Rightarrow> (Returns errReply, db)
                | Inr (d, init, db1) \<Rightarrow>
                    (case Get d field of
                       None \<Rightarrow>
                         (let d' = fst (Put d field (GoBytes rawDelta));
                              db2 = storeDict db1 key d';
                              db3 = addAof db2 (ToCmdLine3 ''hincrby'' args)
                          in (Returns (BulkReply (Some rawDelta)), db3))
                     | Some (GoString s) \<Rightarrow> (Panics, db1)
                     | Some (GoBytes b) \<Rightarrow>
                         (case ParseInt b of
                            None \<Rightarrow> (Returns (StandardErrReply ''ERR hash value is not an integer''), db1)
                          | Some v \<Rightarrow>
                              (let bs = FormatInt (wrap64 (v + delta));
                                   d' = fst (Put d field (GoBytes bs));
                                   db2 = storeDict db1 key d';
                                   db3 = addAof db2 (ToCmdLine3 ''hincrby'' args)
                               in (Returns (BulkReply (Some bs)), db3))))))
      | _ \<Rightarrow> (Panics, db))"

definition execHIncrByFloat :: "'d golib \<Rightarrow> DB \<Rightarrow> bytes list \<Rightarrow> outcome \<times> DB" where
  "execHIncrByFloat L db args =
     (case args of
        key # field # rawDelta # rest \<Rightarrow>
          (case decimal_NewFromString L rawDelta of
             None \<Rightarrow> (Returns (StandardErrReply ''ERR value is not a valid float''), db)
           | Some delta \<Rightarrow>
               (case getOrInitDict db key of
                  Inl errReply \<Rightarrow> (Returns errReply, db)
                | Inr (d, init, db1) \<Rightarrow>
                    (case Get d field of
                       None \<Rightarrow>
                         (let d' = fst (Put d field (GoBytes rawDelta));
                              db2 = storeDict db1 key d'
                          in (Returns (BulkReply (Some rawDelta)), db2))
                     | Some (GoString s) \<Rightarrow> (Panics, db1)
                     | Some (GoBytes b) \<Rightarrow>
                         (case decimal_NewFromString L b of
                            None \<Rightarrow> (Returns (StandardErrReply ''ERR hash value is not a float''), db1)
                          | Some v \<Rightarrow>
                              (let resultBytes = decimal_String L (decimal_Add L v delta);
                                   d' = fst (Put d field (GoBytes resultBytes));
                                   db2 = storeDict db1 key d';
                                   db3 = addAof db2 (ToCmdLine3 ''hincrbyfloat'' args)
                               in (Returns (BulkReply (Some resultBytes)), db3))))))
      | _ \<Rightarrow> (Panics, db))"

text \<open>
  The reply of \<^verbatim>\<open>execHRandField\<close> for the sampled fields. With \<^verbatim>\<open>withvalues\<close> each field is
  followed by its value, read with \<^verbatim>\<open>raw.([]byte)\<close>: a panic on a value that is not a byte
  slice. No sample (a limit outside the dict's contract) leaves the executor without a
  reply.
\<close>

fun fieldsWithValues :: "Dict \<Rightarrow> string list \<Rightarrow> bytes option list option" where
  "fieldsWithValues d [] = Some []"
| "fieldsWithValues d (v # vs) =
     (case Get d v of
        Some (GoBytes b) \<Rightarrow>
          (case fieldsWithValues d vs of
             None \<Rightarrow> None
           | Some r \<Rightarrow> Some (Some v # Some b # r))
      | _ \<Rightarrow> None)"

definition randFieldReply :: "Dict \<Rightarrow> bool \<Rightarrow> string list option \<Rightarrow> outcome" where
  "randFieldReply d withvalues sample =
     (case sample of
        None \<Rightarrow> Panics
      | Some flds \<Rightarrow>
          if \<not> withvalues then Returns (MultiBulkReply (map Some flds))
          else (case fieldsWithValues d flds of
                  None \<Rightarrow> Panics
                | Some r \<Rightarrow> Returns (MultiBulkReply r)))"

definition execHRandField :: "'d golib \<Rightarrow> rng \<Rightarrow> DB \<Rightarrow> bytes list \<Rightarrow> outcome \<times> DB" where
  "execHRandField L rnd db args =
     (case args of
        [] \<Rightarrow> (Panics, db)
      | key # rest \<Rightarrow>
          if length args > 3
          then (Returns (StandardErrReply
                  ''ERR wrong number of arguments for 'hrandfield' command''), db)
          else if length args = 3 \<and> strings_ToLower L (args ! 2) \<noteq> ''withvalues''
          then (Returns SyntaxErrReply, db)
          else
            (let withvalues = (length args = 3) in
             case (if length args \<ge> 2 then ParseInt (args ! 1) else Some 1) of
               None \<Rightarrow>
                 (Returns (StandardErrReply ''ERR value is not an integer or out of range''), db)
             | Some count \<Rightarrow>
                 (case getAsDict db key of
                    Inl errReply \<Rightarrow> (Returns errReply, db)
                  | Inr None \<Rightarrow> (Returns EmptyMultiBulkReply, db)
                  | Inr (Some d) \<Rightarrow>
                      if count > 0
                      then (randFieldReply d withvalues (RandomDistinctKeys rnd d count), db)
                      else if count < 0
                      then (randFieldReply d withvalues (RandomKeys rnd d (wrap64 (- count))), db)
                      else (Returns EmptyMultiBulkReply, db))))"

text \<open>
  Modelled from the spec: \<^verbatim>\<open>rollbackHashFields\<close> is defined outside \<^verbatim>\<open>hash.go\<close>.
  Section 4.4: the undo of
  a command snapshots the current value of every field it names, "field X in container Y
  <- snapshot value" or "field X was absent -> remove it", each as a command line that can
  be executed on its own. A key that holds another kind of entity has no fields to
  restore.
\<close>

definition rollbackHashFields :: "DB \<Rightarrow> string \<Rightarrow> string list \<Rightarrow> CmdLine list" where
  "rollbackHashFields db key flds =
     (case getAsDict db key of
        Inl errReply \<Rightarrow> []
      | Inr dopt \<Rightarrow>
          map (\<lambda>field.
                 case (case dopt of None \<Rightarrow> None | Some d \<Rightarrow> Get d field) of
                   None \<Rightarrow> [''HDEL'', key, field]
                 | Some v \<Rightarrow> [''HSET'', key, field, val_bytes v])
              flds)"

text \<open>The undo generators; \<open>None\<close> is a panic on a missing argument.\<close>

definition undoHSet :: "DB \<Rightarrow> bytes list \<Rightarrow> CmdLine list option" where
  "undoHSet db args =
     (case args of
        key # field # rest \<Rightarrow> Some (rollbackHashFields db key [field])
      | _ \<Rightarrow> None)"

definition undoHDel :: "DB \<Rightarrow> bytes list \<Rightarrow> CmdLine list option" where
  "undoHDel db args =
     (case args of
        [] \<Rightarrow> None
      | key # flds \<Rightarrow> Some (rollbackHashFields db key flds))"

definition undoHMSet :: "DB \<Rightarrow> bytes list \<Rightarrow> CmdLine list option" where
  "undoHMSet db args =
     (case args of
        [] \<Rightarrow> None
      | key # rest \<Rightarrow> Some (rollbackHashFields db key (hmsetFields args)))"

definition undoHIncr :: "DB \<Rightarrow> bytes list \<Rightarrow> CmdLine list option" where
  "undoHIncr db args =
     (case args of
        key # field # rest \<Rightarrow> Some (rollbackHashFields db key [field])
      | _ \<Rightarrow> None)"

subsection \<open>The command table and dispatch\<close>

text \<open>
  Modelled from the spec: \<^verbatim>\<open>RegisterCommand\<close>, the descriptor it stores, the key locators
  \<^verbatim>\<open>writeFirstKey\<close> and \<^verbatim>\<open>readFirstKey\<close>, the flags and the dispatcher are defined
  outside \<^verbatim>\<open>hash.go\<close>.
  Sections 3 and 4.3: a descriptor holds the executor, the key locator, the arity, the
  undo generator (or none) and the access mode; a later registration of a name replaces
  an earlier one; the lookup ignores the case of the name; a positive arity is the exact
  number of arguments counting the command name, a negative arity \<open>-n\<close> means at least
  \<open>n\<close>; a violated arity is an error reply and the executor does not run.
  In the model an executor also receives the Go library parameter and the random choices.
\<close>

datatype PreFunc = writeFirstKey | readFirstKey

datatype flag = flagWrite | flagReadOnly

type_synonym 'd ExecFunc = "'d golib \<Rightarrow> rng \<Rightarrow> DB \<Rightarrow> bytes list \<Rightarrow> outcome \<times> DB"

type_synonym UndoFunc = "DB \<Rightarrow> bytes list \<Rightarrow> CmdLine list option"

record 'd command =
  executor :: "'d ExecFunc"
  prepare :: PreFunc
  undo :: "UndoFunc option"
  arity :: int
  flags :: flag

definition RegisterCommand ::
  "string \<Rightarrow> 'd ExecFunc \<Rightarrow> PreFunc \<Rightarrow> UndoFunc option \<Rightarrow> int \<Rightarrow> flag \<Rightarrow>
   (string \<rightharpoonup> 'd command) \<Rightarrow> (string \<rightharpoonup> 'd command)" where
  "RegisterCommand name exec prep un ar fl cmdTable =
     cmdTable(map ascii_lower name \<mapsto>
       \<lparr>executor = exec, prepare = prep, undo = un, arity = ar, flags = fl\<rparr>)"

text \<open>
  The table after \<^verbatim>\<open>init()\<close> of \<^verbatim>\<open>hash.go\<close>, the registrations in the order of the
  source. The registered names are ASCII, so lowering them byte by byte is all of
  \<^verbatim>\<open>strings.ToLower\<close>.
\<close>

definition init :: "string \<rightharpoonup> 'd command" where
  "init =
     fold (\<lambda>register cmdTable. register cmdTable)
       [RegisterCommand ''HSet'' (\<lambda>L rnd. execHSet) writeFirstKey (Some undoHSet) 4 flagWrite,
        RegisterCommand ''HSetNX'' (\<lambda>L rnd. execHSetNX) writeFirstKey (Some undoHSet) 4 flagWrite,
        RegisterCommand ''HGet'' (\<lambda>L rnd. execHGet) readFirstKey None 3 flagReadOnly,
        RegisterCommand ''HExists'' (\<lambda>L rnd. execHExists) readFirstKey None 3 flagReadOnly,
        RegisterCommand ''HDel'' (\<lambda>L rnd. execHDel) writeFirstKey (Some undoHDel) (- 3) flagWrite,
        RegisterCommand ''HLen'' (\<lambda>L rnd. execHLen) readFirstKey None 2 flagReadOnly,
        RegisterCommand ''HStrlen'' (\<lambda>L rnd. execHStrLen) readFirstKey None 3 flagReadOnly,
        RegisterCommand ''HMSet'' (\<lambda>L rnd. execHMSet) writeFirstKey (Some undoHMSet) (- 4) flagWrite,
        RegisterCommand ''HMGet'' (\<lambda>L rnd. execHMGet) readFirstKey None (- 3) flagReadOnly,
        RegisterCommand ''HGet'' (\<lambda>L rnd. execHGet) readFirstKey None (- 3) flagReadOnly,
        RegisterCommand ''HKeys'' (\<lambda>L rnd. execHKeys) readFirstKey None 2 flagReadOnly,
        RegisterCommand ''HVals'' (\<lambda>L rnd. execHVals) readFirstKey None 2 flagReadOnly,
        RegisterCommand ''HGetAll'' (\<lambda>L rnd. execHGetAll) readFirstKey None 2 flagReadOnly,
        RegisterCommand ''HIncrBy'' (\<lambda>L rnd. execHIncrBy) writeFirstKey (Some undoHIncr) 4 flagWrite,
        RegisterCommand ''HIncrByFloat'' (\<lambda>L rnd. execHIncrByFloat L) writeFirstKey
          (Some undoHIncr) 4 flagWrite,
        RegisterCommand ''HRandField'' execHRandField readFirstKey None (- 2) flagReadOnly]
       Map.empty"

text \<open>Modelled from the spec: the arity rule of section 3 (Command Descriptor).\<close>

definition validateArity :: "int \<Rightarrow> bytes list \<Rightarrow> bool" where
  "validateArity ar cmdArgs =
     (let argNum = int (length cmdArgs)
      in if ar \<ge> 0 then argNum = ar else argNum \<ge> - ar)"

text \<open>
  Modelled from the spec: \<open>dispatch(cmdline)\<close>, steps 1, 2 and 4 of section 4.3. An empty
  command line has no name to look up: indexing it panics.
\<close>

definition Exec :: "'d golib \<Rightarrow> rng \<Rightarrow> DB \<Rightarrow> CmdLine \<Rightarrow> outcome \<times> DB" where
  "Exec L rnd db cmdLine =
     (case cmdLine of
        [] \<Rightarrow> (Panics, db)
      | name # args \<Rightarrow>
          (let cmdName = strings_ToLower L name in
           case init cmdName of
             None \<Rightarrow> (Returns (UnknownCommandErrReply cmdName), db)
           | Some cmd \<Rightarrow>
               if \<not> validateArity (arity cmd) cmdLine
               then (Returns (ArgNumErrReply cmdName), db)
               else executor cmd L rnd db args))"

text \<open>
  Modelled from the spec: replaying command lines (sections 3 and 4.4), one after the
  other, each through the dispatcher.
\<close>

definition replay :: "'d golib \<Rightarrow> rng \<Rightarrow> CmdLine list \<Rightarrow> DB \<Rightarrow> DB" where
  "replay L rnd cmdLines db = fold (\<lambda>cmdLine db. snd (Exec L rnd db cmdLine)) cmdLines db"

text \<open>
  The states of the keyspace that hash commands reach from the empty store; each command
  may see its own random choices.
\<close>

inductive reachable :: "'d golib \<Rightarrow> DB \<Rightarrow> bool" for L :: "'d golib" where
  reachable_init: "reachable L makeDB"
| reachable_step: "reachable L db \<Longrightarrow> reachable L (snd (Exec L rnd db cmdLine))"

text \<open>
  A library instance for concrete evaluations: decimals cut down to the integers, and no
  lowering outside ASCII.
\<close>

definition sampleLib :: "int golib" where
  "sampleLib =
     \<lparr>unicode_ToLower = (\<lambda>s. s), decimal_NewFromString = ParseInt,
      decimal_Add = (\<lambda>a b. a + b), decimal_String = FormatInt\<rparr>"

subsection \<open>Notions used in the statements\<close>

text \<open>The value stored at a field of the hash under a key; none when there is no such hash.\<close>

definition fieldOf :: "DB \<Rightarrow> string \<Rightarrow> string \<Rightarrow> anyval option" where
  "fieldOf db key field =
     (case getAsDict db key of Inr (Some d) \<Rightarrow> Get d field | _ \<Rightarrow> None)"

text \<open>The key holds an entity whose payload is not a dict.\<close>

definition holdsOther :: "DB \<Rightarrow> string \<Rightarrow> bool" where
  "holdsOther db key = (case getAsDict db key of Inl e \<Rightarrow> True | Inr d \<Rightarrow> False)"

text \<open>Random choices that always pick the first candidate.\<close>

definition firstChoice :: rng where
  "firstChoice i = 0"

text \<open>A command succeeded: it returned, and the reply is not an error reply.\<close>

fun succeeded :: "outcome \<Rightarrow> bool" where
  "succeeded (Returns r) = (\<not> isErrorReply r)"
| "succeeded Panics = False"

text \<open>No key holds a hash without fields.\<close>

definition noEmptyDict :: "DB \<Rightarrow> bool" where
  "noEmptyDict db = (\<forall>k. data db k \<noteq> Some (DataEntity (DictData [])))"

text \<open>
  The checks an executor makes on its arguments before it looks at the keyspace:
  \<^verbatim>\<open>execHMSet\<close> wants an odd number of arguments, \<^verbatim>\<open>execHIncrBy\<close> and \<^verbatim>\<open>execHIncrByFloat\<close>
  a delta that parses, \<^verbatim>\<open>execHRandField\<close> at most three arguments, "withvalues" as the
  third and a count that parses. The other executors make none.
\<close>

definition argsAccepted :: "'d golib \<Rightarrow> string \<Rightarrow> bytes list \<Rightarrow> bool" where
  "argsAccepted L cmdName args =
     (if cmdName = ''hmset'' then length args mod 2 = 1
      else if cmdName = ''hincrby'' then ParseInt (args ! 2) \<noteq> None
      else if cmdName = ''hincrbyfloat'' then decimal_NewFromString L (args ! 2) \<noteq> None
      else if cmdName = ''hrandfield''
      then length args \<le> 3 \<and>
           (length args = 3 \<longrightarrow> strings_ToLower L (args ! 2) = ''withvalues'') \<and>
           (length args \<ge> 2 \<longrightarrow> ParseInt (args ! 1) \<noteq> None)
      else True)"

text \<open>The field names of every hash in the keyspace are pairwise distinct.\<close>

definition distinctDicts :: "DB \<Rightarrow> bool" where
  "distinctDicts db =
     (\<forall>k d. data db k = Some (DataEntity (DictData d)) \<longrightarrow> distinct (map fst d))"

text \<open>
  The bytes stored at a field, whatever their Go type: the value as the spec's data model
  (field name to byte sequence) sees it, and as a command line can carry it.
\<close>

definition fieldBytes :: "DB \<Rightarrow> string \<Rightarrow> string \<Rightarrow> bytes option" where
  "fieldBytes db key field = map_option val_bytes (fieldOf db key field)"

text \<open>
  The rollback line for one field, as the claim words it: set the field to the bytes it
  holds in \<open>db\<close>, or remove it if it is not there.
\<close>

definition snapshotLine :: "DB \<Rightarrow> string \<Rightarrow> string \<Rightarrow> CmdLine" where
  "snapshotLine db key field =
     (case fieldBytes db key field of
        None \<Rightarrow> [''HDEL'', key, field]
      | Some b \<Rightarrow> [''HSET'', key, field, b])"

text \<open>
  The fields a write command names: the fields of the field/value pairs of \<open>HMSET\<close>, all
  arguments after the key of \<open>HDEL\<close>, the argument after the key of the others.
\<close>

fun fieldsOfPairs :: "bytes list \<Rightarrow> string list" where
  "fieldsOfPairs (f # v # rest) = f # fieldsOfPairs rest"
| "fieldsOfPairs rest = []"

definition namedFields :: "string \<Rightarrow> bytes list \<Rightarrow> string list" where
  "namedFields cmdName args =
     (if cmdName = ''hdel'' then tl args
      else if cmdName = ''hmset'' then fieldsOfPairs (tl args)
      else [args ! 1])"

section \<open>Properties\<close>

lemmas store_defs = getOrInitDict_def getAsDict_def GetEntity_def PutEntity_def RemoveKey_def
  addAof_def ToCmdLine3_def storeDict_def makeDB_def MakeSimple_def Get_def Put_def
  PutIfAbsent_def Remove_def Len_def

lemmas parse_defs = ParseInt_def ParseUint_def digit_val_def

lemma Data_eq_iff [simp]: "(Data x = v) = (x = DataEntity v)"
  by (cases x) auto

lemma getAsDict_Some:
  "getAsDict db k = Inr (Some d) \<longleftrightarrow> data db k = Some (DataEntity (DictData d))"
  by (auto simp: getAsDict_def GetEntity_def split: option.splits entity_data.splits)

lemma getAsDict_None: "getAsDict db k = Inr None \<longleftrightarrow> data db k = None"
  by (auto simp: getAsDict_def GetEntity_def split: option.splits entity_data.splits)

lemma getAsDict_cases:
  obtains (absent) "data db k = None" "getAsDict db k = Inr None"
  | (dict) d where "data db k = Some (DataEntity (DictData d))" "getAsDict db k = Inr (Some d)"
  | (other) "getAsDict db k = Inl WrongTypeErrReply" "data db k \<noteq> None"
  by (cases "getAsDict db k")
     (auto simp: getAsDict_def GetEntity_def split: option.splits entity_data.splits)

lemma map_of_None_iff: "map_of d f = None \<longleftrightarrow> f \<notin> fst ` set d"
  by (simp add: map_of_eq_None_iff)

lemma fst_image_delete: "fst ` set (AList.delete x d) = fst ` set d - {x}"
  by (induction d) (auto simp: AList.delete_eq)

subsection \<open>HSET, HGET\<close>

text \<open>
  C7 (the code departs from the claim). Starting from a keyspace where key \<open>k\<close> is absent,
  \<open>HSET k f v\<close> creates a hash at \<open>k\<close> and returns 1 and a second \<open>HSET k f v2\<close> returns 0,
  as claimed. The following \<open>HGET k f\<close> does not return the bulk value \<open>v2\<close>:
  \<^verbatim>\<open>execHSet\<close> stores the value as a Go string, the assertion \<^verbatim>\<open>raw.([]byte)\<close> of
  \<^verbatim>\<open>execHGet\<close> fails on it, and the reply is a bulk reply of the nil slice.
\<close>

theorem hset_hset_hget:
  assumes "data db k = None"
  shows "fst (execHSet db [k, f, v]) = Returns (IntReply 1) \<and>
         data (snd (execHSet db [k, f, v])) k = Some (DataEntity (DictData [(f, GoString v)])) \<and>
         fst (execHSet (snd (execHSet db [k, f, v])) [k, f, v2]) = Returns (IntReply 0) \<and>
         fst (execHGet (snd (execHSet (snd (execHSet db [k, f, v])) [k, f, v2])) [k, f]) =
           Returns (BulkReply None)"
  using assms by (simp add: execHSet_def execHGet_def store_defs)

theorem hset_hset_hget_witness:
  "data makeDB ''k'' = None \<and>
   fst (execHGet (snd (execHSet (snd (execHSet makeDB [''k'', ''f'', ''v''])) [''k'', ''f'', ''v2'']))
          [''k'', ''f'']) = Returns (BulkReply None) \<and>
   Returns (BulkReply None) \<noteq> Returns (BulkReply (Some ''v2''))"
  using hset_hset_hget [of makeDB "''k''" "''f''" "''v''" "''v2''"]
  by (simp add: makeDB_def)

subsection \<open>HINCRBY\<close>

text \<open>
  C5 (the code departs from the claim). \<open>HINCRBY k f 5\<close> on an absent field stores the
  bytes "5" and replies "5". On a field whose value is a byte slice that does not parse as
  an integer it returns the error reply and changes nothing. On a field whose value was
  stored by \<open>HSET\<close> (a Go string, whatever its text) the executor panics in the assertion
  \<^verbatim>\<open>value.([]byte)\<close> instead of returning the error reply.
\<close>

theorem hincrby_five:
  "(fieldOf db k f = None \<and> \<not> holdsOther db k \<longrightarrow>
      fst (execHIncrBy db [k, f, ''5'']) = Returns (BulkReply (Some ''5'')) \<and>
      fieldOf (snd (execHIncrBy db [k, f, ''5''])) k f = Some (GoBytes ''5'')) \<and>
   (fieldOf db k f = Some (GoBytes b) \<and> ParseInt b = None \<longrightarrow>
      execHIncrBy db [k, f, ''5''] =
        (Returns (StandardErrReply ''ERR hash value is not an integer''), db)) \<and>
   (fieldOf db k f = Some (GoString s) \<longrightarrow> execHIncrBy db [k, f, ''5''] = (Panics, db))"
  by (cases db k rule: getAsDict_cases)
     (auto simp: fieldOf_def holdsOther_def execHIncrBy_def store_defs parse_defs
        AList.update_conv')

theorem hincrby_five_witness:
  "fieldOf makeDB ''k'' ''f'' = None \<and> \<not> holdsOther makeDB ''k'' \<and>
   fst (execHIncrBy makeDB [''k'', ''f'', ''5'']) = Returns (BulkReply (Some ''5'')) \<and>
   fieldOf (snd (execHSetNX makeDB [''k'', ''f'', ''abc''])) ''k'' ''f'' = Some (GoBytes ''abc'') \<and>
   ParseInt ''abc'' = None \<and>
   fst (execHIncrBy (snd (execHSetNX makeDB [''k'', ''f'', ''abc''])) [''k'', ''f'', ''5'']) =
     Returns (StandardErrReply ''ERR hash value is not an integer'') \<and>
   fieldOf (snd (execHSet makeDB [''k'', ''f'', ''abc''])) ''k'' ''f'' = Some (GoString ''abc'') \<and>
   fst (execHIncrBy (snd (execHSet makeDB [''k'', ''f'', ''abc''])) [''k'', ''f'', ''5'']) = Panics"
proof -
  have a: "fieldOf makeDB ''k'' ''f'' = None \<and> \<not> holdsOther makeDB ''k''"
    by (simp add: fieldOf_def holdsOther_def store_defs)
  have b: "fieldOf (snd (execHSetNX makeDB [''k'', ''f'', ''abc''])) ''k'' ''f'' = Some (GoBytes ''abc'')"
    by (simp add: fieldOf_def execHSetNX_def store_defs)
  have c: "ParseInt ''abc'' = None"
    by (simp add: parse_defs)
  have d: "fieldOf (snd (execHSet makeDB [''k'', ''f'', ''abc''])) ''k'' ''f'' = Some (GoString ''abc'')"
    by (simp add: fieldOf_def execHSet_def store_defs)
  show ?thesis
    using a b c d
      hincrby_five [of makeDB "''k''" "''f''" "''abc''" "''abc''"]
      hincrby_five [of "snd (execHSetNX makeDB [''k'', ''f'', ''abc''])" "''k''" "''f''" "''abc''" "''abc''"]
      hincrby_five [of "snd (execHSet makeDB [''k'', ''f'', ''abc''])" "''k''" "''f''" "''abc''" "''abc''"]
    by simp
qed

subsection \<open>HSETNX\<close>

text \<open>
  C8. \<open>HSETNX k f v\<close> when \<open>f\<close> exists in the hash at \<open>k\<close> returns 0 and leaves the whole
  state, so also the stored value, unchanged; when \<open>f\<close> is absent (the key absent, or a
  hash without \<open>f\<close>) it returns 1 and stores \<open>v\<close> at \<open>f\<close>.
\<close>

theorem hsetnx_contract:
  "(fieldOf db k f = Some old \<longrightarrow>
      execHSetNX db [k, f, v] = (Returns (IntReply 0), db)) \<and>
   (fieldOf db k f = None \<and> \<not> holdsOther db k \<longrightarrow>
      fst (execHSetNX db [k, f, v]) = Returns (IntReply 1) \<and>
      fieldOf (snd (execHSetNX db [k, f, v])) k f = Some (GoBytes v))"
  by (cases db k rule: getAsDict_cases)
     (auto simp: fieldOf_def holdsOther_def execHSetNX_def store_defs map_upd_triv map_add_def)

theorem hsetnx_contract_witness:
  "fieldOf makeDB ''k'' ''f'' = None \<and> \<not> holdsOther makeDB ''k'' \<and>
   fst (execHSetNX makeDB [''k'', ''f'', ''v'']) = Returns (IntReply 1) \<and>
   fieldOf (snd (execHSetNX makeDB [''k'', ''f'', ''v''])) ''k'' ''f'' = Some (GoBytes ''v'') \<and>
   execHSetNX (snd (execHSetNX makeDB [''k'', ''f'', ''v''])) [''k'', ''f'', ''w''] =
     (Returns (IntReply 0), snd (execHSetNX makeDB [''k'', ''f'', ''v'']))"
proof -
  have a: "fieldOf makeDB ''k'' ''f'' = None \<and> \<not> holdsOther makeDB ''k''"
    by (simp add: fieldOf_def holdsOther_def store_defs)
  show ?thesis
    using a
      hsetnx_contract [of makeDB "''k''" "''f''" "GoBytes ''v''" "''v''"]
      hsetnx_contract [of "snd (execHSetNX makeDB [''k'', ''f'', ''v''])" "''k''" "''f''"
        "GoBytes ''v''" "''w''"]
    by simp
qed

subsection \<open>HDEL, HLEN\<close>

lemma removeFields_two:
  "removeFields [f1, f2] (d, 0) =
     (AList.delete f2 (AList.delete f1 d),
      (if map_of d f1 = None then 0 else 1) +
      (if f2 = f1 \<or> map_of d f2 = None then 0 else 1))"
  by (auto simp: removeFields_def Remove_def AList.delete_conv')

lemma card_two_inter:
  "int (card ({f1, f2} \<inter> A)) =
     (if f1 \<notin> A then 0 else 1) + (if f2 = f1 \<or> f2 \<notin> A then 0 else 1)"
  by (auto simp: card_insert_if Int_insert_left)

lemma hdel_on_hash:
  assumes "data db k = Some (DataEntity (DictData d))"
  shows "fst (execHDel db [k, f1, f2]) =
           Returns (IntReply (int (card ({f1, f2} \<inter> fst ` set d)))) \<and>
         card ({f1, f2} \<inter> fst ` set d) \<le> 2 \<and>
         (\<forall>f. fieldOf (snd (execHDel db [k, f1, f2])) k f =
                (if f = f1 \<or> f = f2 then None else fieldOf db k f)) \<and>
         (fst ` set d \<subseteq> {f1, f2} \<longrightarrow>
            data (snd (execHDel db [k, f1, f2])) k = None \<and>
            fst (execHLen (snd (execHDel db [k, f1, f2])) [k]) = Returns (IntReply 0))"
proof -
  let ?d' = "AList.delete f2 (AList.delete f1 d)"
  have g: "getAsDict db k = Inr (Some d)"
    using assms by (simp add: getAsDict_Some)
  have empty_iff: "?d' = [] \<longleftrightarrow> fst ` set d \<subseteq> {f1, f2}"
  proof -
    have "?d' = [] \<longleftrightarrow> fst ` set ?d' = {}" by simp
    also have "\<dots> \<longleftrightarrow> fst ` set d \<subseteq> {f1, f2}"
      unfolding fst_image_delete by auto
    finally show ?thesis .
  qed
  have c: "card ({f1, f2} \<inter> fst ` set d) \<le> 2"
    by (rule order_trans[OF card_mono[of "{f1, f2}"]]) (auto simp: card_insert_if)
  have r: "fst (execHDel db [k, f1, f2]) =
             Returns (IntReply (int (card ({f1, f2} \<inter> fst ` set d))))"
    unfolding card_two_inter
    by (simp add: execHDel_def g removeFields_two map_of_None_iff Let_def)
  have s: "data (snd (execHDel db [k, f1, f2])) =
        (if ?d' = [] then (data db)(k := None) else (data db)(k \<mapsto> DataEntity (DictData ?d')))"
    by (auto simp: execHDel_def g removeFields_two Let_def storeDict_def RemoveKey_def
        Len_def addAof_def)
  have f: "fieldOf (snd (execHDel db [k, f1, f2])) k f =
                (if f = f1 \<or> f = f2 then None else fieldOf db k f)" for f
  proof -
    have "fst ` set d \<subseteq> {f1, f2} \<Longrightarrow> f \<noteq> f1 \<Longrightarrow> f \<noteq> f2 \<Longrightarrow> map_of d f = None"
      unfolding map_of_None_iff by blast
    then show ?thesis
      using assms
      by (auto simp: fieldOf_def getAsDict_def GetEntity_def s Get_def AList.delete_conv'
          empty_iff)
  qed
  have e: "fst ` set d \<subseteq> {f1, f2} \<Longrightarrow>
            data (snd (execHDel db [k, f1, f2])) k = None \<and>
            fst (execHLen (snd (execHDel db [k, f1, f2])) [k]) = Returns (IntReply 0)"
    by (simp add: s empty_iff[symmetric] execHLen_def getAsDict_def GetEntity_def)
  show ?thesis using c r f e by blast
qed

text \<open>
  C9. On a hash at \<open>k\<close>, \<open>HDEL k f1 f2\<close> returns the number of the fields \<open>f1\<close>, \<open>f2\<close> that
  the hash held (at most 2), afterwards neither field is there and every other field is
  as before; if that leaves no field, \<open>k\<close> is absent from the keyspace and \<open>HLEN k\<close>
  returns 0. On an absent key it returns 0 and changes nothing.
\<close>

theorem hdel_contract:
  "(data db k = None \<longrightarrow> execHDel db [k, f1, f2] = (Returns (IntReply 0), db)) \<and>
   (data db k = Some (DataEntity (DictData d)) \<longrightarrow>
      fst (execHDel db [k, f1, f2]) =
        Returns (IntReply (int (card ({f1, f2} \<inter> fst ` set d)))) \<and>
      card ({f1, f2} \<inter> fst ` set d) \<le> 2 \<and>
      (\<forall>f. fieldOf (snd (execHDel db [k, f1, f2])) k f =
             (if f = f1 \<or> f = f2 then None else fieldOf db k f)) \<and>
      (fst ` set d \<subseteq> {f1, f2} \<longrightarrow>
         data (snd (execHDel db [k, f1, f2])) k = None \<and>
         fst (execHLen (snd (execHDel db [k, f1, f2])) [k]) = Returns (IntReply 0)))"
proof (rule conjI; rule impI)
  assume "data db k = None"
  then show "execHDel db [k, f1, f2] = (Returns (IntReply 0), db)"
    by (simp add: execHDel_def getAsDict_def GetEntity_def)
next
  assume "data db k = Some (DataEntity (DictData d))"
  then show "fst (execHDel db [k, f1, f2]) =
        Returns (IntReply (int (card ({f1, f2} \<inter> fst ` set d)))) \<and>
      card ({f1, f2} \<inter> fst ` set d) \<le> 2 \<and>
      (\<forall>f. fieldOf (snd (execHDel db [k, f1, f2])) k f =
             (if f = f1 \<or> f = f2 then None else fieldOf db k f)) \<and>
      (fst ` set d \<subseteq> {f1, f2} \<longrightarrow>
         data (snd (execHDel db [k, f1, f2])) k = None \<and>
         fst (execHLen (snd (execHDel db [k, f1, f2])) [k]) = Returns (IntReply 0))"
    by (rule hdel_on_hash)
qed

theorem hdel_contract_witness:
  "data (snd (execHSetNX makeDB [''k'', ''a'', ''1''])) ''k'' =
     Some (DataEntity (DictData [(''a'', GoBytes ''1'')])) \<and>
   fst ` set [(''a'', GoBytes ''1'')] \<subseteq> {''a'', ''b''} \<and>
   fst (execHDel (snd (execHSetNX makeDB [''k'', ''a'', ''1''])) [''k'', ''a'', ''b'']) =
     Returns (IntReply 1) \<and>
   data (snd (execHDel (snd (execHSetNX makeDB [''k'', ''a'', ''1''])) [''k'', ''a'', ''b''])) ''k'' =
     None \<and>
   fst (execHLen (snd (execHDel (snd (execHSetNX makeDB [''k'', ''a'', ''1'']))
          [''k'', ''a'', ''b''])) [''k'']) = Returns (IntReply 0)"
proof -
  have a: "data (snd (execHSetNX makeDB [''k'', ''a'', ''1''])) ''k'' =
     Some (DataEntity (DictData [(''a'', GoBytes ''1'')]))"
    by (simp add: execHSetNX_def store_defs)
  have b: "fst ` set [(''a'', GoBytes ''1'')] \<subseteq> {''a'', ''b''}"
    by simp
  have c: "int (card ({''a'', ''b''} \<inter> fst ` set [(''a'', GoBytes ''1'')])) = 1"
    by (simp add: card_two_inter)
  show ?thesis
    using a b c
      hdel_contract [of "snd (execHSetNX makeDB [''k'', ''a'', ''1''])" "''k''" "''a''" "''b''"
        "[(''a'', GoBytes ''1'')]"]
    by simp
qed

subsection \<open>HRANDFIELD: argument checks\<close>

text \<open>
  C10. With more than three arguments after the command name \<^verbatim>\<open>execHRandField\<close> returns
  the wrong-number-of-arguments error, whatever the keyspace holds and leaving it as it
  is, although the registered arity -2 accepts the command line; with exactly three
  arguments, a third one that does not lower to "withvalues" gives the syntax error, again
  whatever the keyspace holds.
\<close>

theorem hrandfield_argument_errors:
  "(length args > 3 \<longrightarrow>
      validateArity (- 2) (name # args) \<and>
      execHRandField L rnd db args =
        (Returns (StandardErrReply
           ''ERR wrong number of arguments for 'hrandfield' command''), db)) \<and>
   (length args = 3 \<and> strings_ToLower L (args ! 2) \<noteq> ''withvalues'' \<longrightarrow>
      execHRandField L rnd db args = (Returns SyntaxErrReply, db))"
  by (cases args) (auto simp: execHRandField_def validateArity_def)

theorem hrandfield_argument_errors_witness:
  "length [''k'', ''1'', ''withvalues'', ''x''] > 3 \<and>
   execHRandField sampleLib firstChoice makeDB [''k'', ''1'', ''withvalues'', ''x''] =
     (Returns (StandardErrReply ''ERR wrong number of arguments for 'hrandfield' command''),
      makeDB) \<and>
   length [''k'', ''1'', ''values''] = 3 \<and>
   strings_ToLower sampleLib ([''k'', ''1'', ''values''] ! 2) \<noteq> ''withvalues'' \<and>
   execHRandField sampleLib firstChoice makeDB [''k'', ''1'', ''values''] =
     (Returns SyntaxErrReply, makeDB)"
proof -
  have a: "strings_ToLower sampleLib ([''k'', ''1'', ''values''] ! 2) \<noteq> ''withvalues''"
    by (simp add: strings_ToLower_def ascii_lower_def)
  show ?thesis
    using a
      hrandfield_argument_errors [of "[''k'', ''1'', ''withvalues'', ''x'']" "''hrandfield''"
        sampleLib firstChoice makeDB]
      hrandfield_argument_errors [of "[''k'', ''1'', ''values'']" "''hrandfield''"
        sampleLib firstChoice makeDB]
    by simp
qed

lemmas exec_splits = list.splits option.splits sum.splits entity_data.splits anyval.splits
  prod.splits if_splits

lemmas goal_splits = list.split option.split sum.split entity_data.split anyval.split prod.split

lemma holdsOther_iff: "holdsOther db k \<longleftrightarrow> getAsDict db k = Inl WrongTypeErrReply"
  by (cases db k rule: getAsDict_cases) (auto simp: holdsOther_def)

lemma getOrInitDict_other: "holdsOther db key \<Longrightarrow> getOrInitDict db key = Inl WrongTypeErrReply"
  by (simp add: holdsOther_iff getOrInitDict_def)

subsection \<open>The command table\<close>

lemma init_table:
  "init name = Some cmd \<Longrightarrow>
   name \<in> {''hset'', ''hsetnx'', ''hget'', ''hexists'', ''hdel'', ''hlen'', ''hstrlen'', ''hmset'',
     ''hmget'', ''hkeys'', ''hvals'', ''hgetall'', ''hincrby'', ''hincrbyfloat'', ''hrandfield''}"
  by (simp add: init_def RegisterCommand_def ascii_lower_def split: if_splits)

lemma init_entries:
  "init ''hset'' = Some \<lparr>executor = (\<lambda>L rnd. execHSet), prepare = writeFirstKey,
     undo = Some undoHSet, arity = 4, flags = flagWrite\<rparr>"
  "init ''hsetnx'' = Some \<lparr>executor = (\<lambda>L rnd. execHSetNX), prepare = writeFirstKey,
     undo = Some undoHSet, arity = 4, flags = flagWrite\<rparr>"
  "init ''hget'' = Some \<lparr>executor = (\<lambda>L rnd. execHGet), prepare = readFirstKey,
     undo = None, arity = - 3, flags = flagReadOnly\<rparr>"
  "init ''hexists'' = Some \<lparr>executor = (\<lambda>L rnd. execHExists), prepare = readFirstKey,
     undo = None, arity = 3, flags = flagReadOnly\<rparr>"
  "init ''hdel'' = Some \<lparr>executor = (\<lambda>L rnd. execHDel), prepare = writeFirstKey,
     undo = Some undoHDel, arity = - 3, flags = flagWrite\<rparr>"
  "init ''hlen'' = Some \<lparr>executor = (\<lambda>L rnd. execHLen), prepare = readFirstKey,
     undo = None, arity = 2, flags = flagReadOnly\<rparr>"
  "init ''hstrlen'' = Some \<lparr>executor = (\<lambda>L rnd. execHStrLen), prepare = readFirstKey,
     undo = None, arity = 3, flags = flagReadOnly\<rparr>"
  "init ''hmset'' = Some \<lparr>executor = (\<lambda>L rnd. execHMSet), prepare = writeFirstKey,
     undo = Some undoHMSet, arity = - 4, flags = flagWrite\<rparr>"
  "init ''hmget'' = Some \<lparr>executor = (\<lambda>L rnd. execHMGet), prepare = readFirstKey,
     undo = None, arity = - 3, flags = flagReadOnly\<rparr>"
  "init ''hkeys'' = Some \<lparr>executor = (\<lambda>L rnd. execHKeys), prepare = readFirstKey,
     undo = None, arity = 2, flags = flagReadOnly\<rparr>"
  "init ''hvals'' = Some \<lparr>executor = (\<lambda>L rnd. execHVals), prepare = readFirstKey,
     undo = None, arity = 2, flags = flagReadOnly\<rparr>"
  "init ''hgetall'' = Some \<lparr>executor = (\<lambda>L rnd. execHGetAll), prepare = readFirstKey,
     undo = None, arity = 2, flags = flagReadOnly\<rparr>"
  "init ''hincrby'' = Some \<lparr>executor = (\<lambda>L rnd. execHIncrBy), prepare = writeFirstKey,
     undo = Some undoHIncr, arity = 4, flags = flagWrite\<rparr>"
  "init ''hincrbyfloat'' = Some \<lparr>executor = (\<lambda>L rnd. execHIncrByFloat L),
     prepare = writeFirstKey, undo = Some undoHIncr, arity = 4, flags = flagWrite\<rparr>"
  "init ''hrandfield'' = Some \<lparr>executor = execHRandField, prepare = readFirstKey,
     undo = None, arity = - 2, flags = flagReadOnly\<rparr>"
  by (simp_all add: init_def RegisterCommand_def ascii_lower_def)

lemmas lower_defs = strings_ToLower_def ascii_lower_def

lemma readonly_state:
  "snd (execHGet db args) = db"
  "snd (execHExists db args) = db"
  "snd (execHLen db args) = db"
  "snd (execHStrLen db args) = db"
  "snd (execHMGet db args) = db"
  "snd (execHKeys db args) = db"
  "snd (execHVals db args) = db"
  "snd (execHGetAll db args) = db"
  "snd (execHRandField L rnd db args) = db"
  by (auto simp: execHGet_def execHExists_def execHLen_def execHStrLen_def execHMGet_def
      execHKeys_def execHVals_def execHGetAll_def execHRandField_def Let_def split: exec_splits)

subsection \<open>Hash commands on a key of another kind\<close>

lemma other_write_state:
  assumes "holdsOther db key"
  shows "snd (execHSet db (key # rest)) = db"
    and "snd (execHSetNX db (key # rest)) = db"
    and "snd (execHDel db (key # rest)) = db"
    and "snd (execHMSet db (key # rest)) = db"
    and "snd (execHIncrBy db (key # rest)) = db"
    and "snd (execHIncrByFloat L db (key # rest)) = db"
  using assms
  by (auto simp: getOrInitDict_other holdsOther_iff execHSet_def execHSetNX_def execHDel_def
      execHMSet_def execHIncrBy_def execHIncrByFloat_def Let_def split: list.splits option.splits)

lemma other_reply_plain:
  assumes "holdsOther db key"
  shows "fst (execHLen db (key # rest)) = Returns WrongTypeErrReply"
    and "fst (execHMGet db (key # rest)) = Returns WrongTypeErrReply"
    and "fst (execHKeys db (key # rest)) = Returns WrongTypeErrReply"
    and "fst (execHVals db (key # rest)) = Returns WrongTypeErrReply"
    and "fst (execHGetAll db (key # rest)) = Returns WrongTypeErrReply"
    and "fst (execHDel db (key # rest)) = Returns WrongTypeErrReply"
  using assms
  by (simp_all add: holdsOther_iff execHLen_def execHMGet_def execHKeys_def execHVals_def
      execHGetAll_def execHDel_def)

lemma other_reply_short:
  assumes "holdsOther db key"
  shows "length rest \<ge> 2 \<Longrightarrow> fst (execHSet db (key # rest)) = Returns WrongTypeErrReply"
    and "length rest \<ge> 2 \<Longrightarrow> fst (execHSetNX db (key # rest)) = Returns WrongTypeErrReply"
    and "length rest \<ge> 1 \<Longrightarrow> fst (execHGet db (key # rest)) = Returns WrongTypeErrReply"
    and "length rest \<ge> 1 \<Longrightarrow> fst (execHExists db (key # rest)) = Returns WrongTypeErrReply"
    and "length rest \<ge> 1 \<Longrightarrow> fst (execHStrLen db (key # rest)) = Returns WrongTypeErrReply"
  using assms
  by (auto simp: getOrInitDict_other holdsOther_iff execHSet_def execHSetNX_def execHGet_def
      execHExists_def execHStrLen_def split: list.splits)

lemma other_reply_incr:
  assumes "holdsOther db key" "length rest \<ge> 2"
  shows "(fst (execHIncrBy db (key # rest)) = Returns WrongTypeErrReply) =
           (ParseInt ((key # rest) ! 2) \<noteq> None)"
    and "(fst (execHIncrByFloat L db (key # rest)) = Returns WrongTypeErrReply) =
           (decimal_NewFromString L ((key # rest) ! 2) \<noteq> None)"
  using assms
  by (auto simp: getOrInitDict_other holdsOther_iff execHIncrBy_def execHIncrByFloat_def
       split: list.splits option.splits)

lemma other_reply_hmset:
  assumes "holdsOther db key"
  shows "(fst (execHMSet db (key # rest)) = Returns WrongTypeErrReply) =
           (length (key # rest) mod 2 = 1)"
  using assms
  by (auto simp: getOrInitDict_other holdsOther_iff execHMSet_def Let_def)

lemma other_reply_hrandfield:
  assumes "holdsOther db key"
  shows "(fst (execHRandField L rnd db (key # rest)) = Returns WrongTypeErrReply) =
     (length (key # rest) \<le> 3 \<and>
      (length (key # rest) = 3 \<longrightarrow> strings_ToLower L ((key # rest) ! 2) = ''withvalues'') \<and>
      (length (key # rest) \<ge> 2 \<longrightarrow> ParseInt ((key # rest) ! 1) \<noteq> None))"
  using assms
  by (auto simp: holdsOther_iff execHRandField_def Let_def split: option.splits)

text \<open>
  C1 (as amended). On a key that holds an entity of another kind, every registered hash
  command leaves the whole state (the entity, the other keys and the log) unchanged, and
  it returns the WrongType error exactly when its arguments pass the executor's own
  argument checks; when they do not, the reply is the argument error.
\<close>

theorem wrongtype_on_other_kind:
  fixes L :: "'d golib" and cmd :: "'d command"
  assumes "holdsOther db key"
    and "init (strings_ToLower L name) = Some cmd"
    and "validateArity (arity cmd) (name # key # rest)"
  shows "snd (Exec L rnd db (name # key # rest)) = db \<and>
         (fst (Exec L rnd db (name # key # rest)) = Returns WrongTypeErrReply) =
           argsAccepted L (strings_ToLower L name) (key # rest)"
proof -
  let ?cn = "strings_ToLower L name"
  have ex: "Exec L rnd db (name # key # rest) = executor cmd L rnd db (key # rest)"
    using assms(2,3) by (simp add: Exec_def)
  have "?cn \<in> {''hset'', ''hsetnx'', ''hget'', ''hexists'', ''hdel'', ''hlen'', ''hstrlen'',
     ''hmset'', ''hmget'', ''hkeys'', ''hvals'', ''hgetall'', ''hincrby'', ''hincrbyfloat'',
     ''hrandfield''}"
    using assms(2) by (rule init_table)
  then show ?thesis
    unfolding ex
    apply (elim insertE emptyE)
    using assms
    by (auto simp add: init_entries validateArity_def argsAccepted_def readonly_state
        other_write_state other_reply_plain other_reply_short other_reply_incr
        other_reply_hmset other_reply_hrandfield simp del: One_nat_def)
qed

theorem wrongtype_on_other_kind_witness:
  "holdsOther (PutEntity makeDB ''k'' (DataEntity (BytesData ''x''))) ''k'' \<and>
   validateArity 4 [''HSET'', ''k'', ''f'', ''v''] \<and>
   argsAccepted sampleLib ''hset'' [''k'', ''f'', ''v''] \<and>
   Exec sampleLib firstChoice (PutEntity makeDB ''k'' (DataEntity (BytesData ''x'')))
     [''HSET'', ''k'', ''f'', ''v''] =
   (Returns WrongTypeErrReply, PutEntity makeDB ''k'' (DataEntity (BytesData ''x'')))"
proof -
  let ?db = "PutEntity makeDB ''k'' (DataEntity (BytesData ''x''))"
  let ?cmd = "\<lparr>executor = (\<lambda>L rnd. execHSet), prepare = writeFirstKey,
     undo = Some undoHSet, arity = 4, flags = flagWrite\<rparr> :: int command"
  have a: "holdsOther ?db ''k''"
    by (simp add: holdsOther_def store_defs)
  have b: "init (strings_ToLower sampleLib ''HSET'') = Some ?cmd"
    by (simp add: lower_defs init_entries)
  have c: "validateArity (arity ?cmd) [''HSET'', ''k'', ''f'', ''v'']"
    by (simp add: validateArity_def)
  have d: "argsAccepted sampleLib (strings_ToLower sampleLib ''HSET'') [''k'', ''f'', ''v'']"
    by (simp add: argsAccepted_def lower_defs)
  have e: "strings_ToLower sampleLib ''HSET'' = ''hset''"
    by (simp add: lower_defs)
  show ?thesis
    using a c d e wrongtype_on_other_kind [OF a b c, of firstChoice]
    by (simp add: prod_eq_iff)
qed

text \<open>
  The claim as stated fails: on a key holding a string, \<open>HINCRBY k f abc\<close> answers that the
  delta is not an integer, not WrongType.
\<close>

theorem wrongtype_counterexample:
  "holdsOther (PutEntity makeDB ''k'' (DataEntity (BytesData ''x''))) ''k'' \<and>
   fst (Exec sampleLib firstChoice (PutEntity makeDB ''k'' (DataEntity (BytesData ''x'')))
          [''HINCRBY'', ''k'', ''f'', ''abc'']) =
     Returns (StandardErrReply ''ERR value is not an integer or out of range'') \<and>
   fst (Exec sampleLib firstChoice (PutEntity makeDB ''k'' (DataEntity (BytesData ''x'')))
          [''HINCRBY'', ''k'', ''f'', ''abc'']) \<noteq> Returns WrongTypeErrReply"
  by (simp add: holdsOther_def Exec_def lower_defs init_entries validateArity_def
      execHIncrBy_def store_defs parse_defs)

subsection \<open>What reaches the durability sink\<close>

lemma aof_hset: "aof (snd (execHSet db args)) =
    (if succeeded (fst (execHSet db args)) then aof db @ [''hset'' # args] else aof db)"
  by (auto simp: execHSet_def store_defs split: exec_splits)

lemma aof_hmset: "aof (snd (execHMSet db args)) =
    (if succeeded (fst (execHMSet db args)) then aof db @ [''hmset'' # args] else aof db)"
  by (auto simp: execHMSet_def store_defs Let_def split: exec_splits)

lemma aof_hincrby: "aof (snd (execHIncrBy db args)) =
    (if succeeded (fst (execHIncrBy db args)) then aof db @ [''hincrby'' # args] else aof db)"
  by (auto simp: execHIncrBy_def store_defs Let_def split: exec_splits)

lemma aof_hsetnx: "aof (snd (execHSetNX db args)) =
    (if \<exists>n>0. fst (execHSetNX db args) = Returns (IntReply n)
     then aof db @ [''hsetnx'' # args] else aof db)"
  by (auto simp: execHSetNX_def store_defs Let_def split: exec_splits)

lemma aof_hdel: "aof (snd (execHDel db args)) =
    (if \<exists>n>0. fst (execHDel db args) = Returns (IntReply n)
     then aof db @ [''hdel'' # args] else aof db)"
  by (auto simp: execHDel_def store_defs Let_def split: exec_splits)

lemma aof_hincrbyfloat: "aof (snd (execHIncrByFloat L db args)) = aof db \<or>
    (aof (snd (execHIncrByFloat L db args)) = aof db @ [''hincrbyfloat'' # args] \<and>
     succeeded (fst (execHIncrByFloat L db args)))"
  by (auto simp: execHIncrByFloat_def store_defs Let_def split: exec_splits)

text \<open>
  C3 (as amended). One execution of a registered hash command hands at most one command
  line to the sink, the lower-case command name followed by the arguments, and only if the
  command is a write command and it succeeded; so a read-only command is never recorded.
  \<open>HSET\<close>, \<open>HMSET\<close> and \<open>HINCRBY\<close> are recorded whenever they succeed. \<open>HSETNX\<close> and \<open>HDEL\<close>
  are recorded exactly when their integer reply is positive: a successful call that
  created or removed nothing (reply 0) is not recorded.
\<close>

theorem aof_record:
  fixes L :: "'d golib" and cmd :: "'d command" and rnd :: rng and db :: DB
    and name :: string and args :: "bytes list"
  assumes "init (strings_ToLower L name) = Some cmd"
  defines "r \<equiv> Exec L rnd db (name # args)" and "cn \<equiv> strings_ToLower L name"
  shows "(aof (snd r) = aof db \<or> aof (snd r) = aof db @ [cn # args]) \<and>
    (aof (snd r) \<noteq> aof db \<longrightarrow> flags cmd = flagWrite \<and> succeeded (fst r)) \<and>
    (cn \<in> {''hset'', ''hmset'', ''hincrby''} \<and> succeeded (fst r) \<longrightarrow>
       aof (snd r) = aof db @ [cn # args]) \<and>
    (cn \<in> {''hsetnx'', ''hdel''} \<longrightarrow>
       (aof (snd r) = aof db @ [cn # args]) = (\<exists>n>0. fst r = Returns (IntReply n)))"
proof (cases "validateArity (arity cmd) (name # args)")
  case False
  then have "r = (Returns (ArgNumErrReply cn), db)"
    using assms(1) by (simp add: r_def cn_def Exec_def)
  then show ?thesis by simp
next
  case True
  then have ex: "r = executor cmd L rnd db args"
    using assms(1) by (simp add: r_def cn_def Exec_def)
  have "cn \<in> {''hset'', ''hsetnx'', ''hget'', ''hexists'', ''hdel'', ''hlen'', ''hstrlen'',
     ''hmset'', ''hmget'', ''hkeys'', ''hvals'', ''hgetall'', ''hincrby'', ''hincrbyfloat'',
     ''hrandfield''}"
    using assms(1) unfolding cn_def by (rule init_table)
  then consider
      (ro) "flags cmd = flagReadOnly" "snd (executor cmd L rnd db args) = db"
        "cn \<notin> {''hset'', ''hmset'', ''hincrby'', ''hsetnx'', ''hdel''}"
    | (hset) "cn = ''hset''" "executor cmd L rnd db args = execHSet db args"
        "flags cmd = flagWrite"
    | (hmset) "cn = ''hmset''" "executor cmd L rnd db args = execHMSet db args"
        "flags cmd = flagWrite"
    | (hincrby) "cn = ''hincrby''" "executor cmd L rnd db args = execHIncrBy db args"
        "flags cmd = flagWrite"
    | (hsetnx) "cn = ''hsetnx''" "executor cmd L rnd db args = execHSetNX db args"
        "flags cmd = flagWrite"
    | (hdel) "cn = ''hdel''" "executor cmd L rnd db args = execHDel db args"
        "flags cmd = flagWrite"
    | (hincrbyfloat) "cn = ''hincrbyfloat''"
        "executor cmd L rnd db args = execHIncrByFloat L db args" "flags cmd = flagWrite"
    using assms(1)[folded cn_def]
    by (elim insertE emptyE) (auto simp add: init_entries readonly_state)
  then show ?thesis
  proof cases
    case ro
    then show ?thesis unfolding ex by simp
  next
    case hset
    then show ?thesis unfolding ex by (simp add: aof_hset)
  next
    case hmset
    then show ?thesis unfolding ex by (simp add: aof_hmset)
  next
    case hincrby
    then show ?thesis unfolding ex by (simp add: aof_hincrby)
  next
    case hsetnx
    then show ?thesis unfolding ex by (auto simp add: aof_hsetnx)
  next
    case hdel
    then show ?thesis unfolding ex by (auto simp add: aof_hdel)
  next
    case hincrbyfloat
    then show ?thesis unfolding ex using aof_hincrbyfloat[of L db args] by auto
  qed
qed

theorem aof_record_witness:
  "succeeded (fst (Exec sampleLib firstChoice makeDB [''HSET'', ''k'', ''f'', ''v''])) \<and>
   aof (snd (Exec sampleLib firstChoice makeDB [''HSET'', ''k'', ''f'', ''v''])) =
     aof makeDB @ [[''hset'', ''k'', ''f'', ''v'']] \<and>
   fst (Exec sampleLib firstChoice makeDB [''HDEL'', ''k'', ''f'']) = Returns (IntReply 0) \<and>
   aof (snd (Exec sampleLib firstChoice makeDB [''HDEL'', ''k'', ''f''])) = aof makeDB"
proof -
  let ?hset = "\<lparr>executor = (\<lambda>L rnd. execHSet), prepare = writeFirstKey,
     undo = Some undoHSet, arity = 4, flags = flagWrite\<rparr> :: int command"
  let ?hdel = "\<lparr>executor = (\<lambda>L rnd. execHDel), prepare = writeFirstKey,
     undo = Some undoHDel, arity = - 3, flags = flagWrite\<rparr> :: int command"
  have a: "init (strings_ToLower sampleLib ''HSET'') = Some ?hset"
    by (simp add: lower_defs init_entries)
  have b: "init (strings_ToLower sampleLib ''HDEL'') = Some ?hdel"
    by (simp add: lower_defs init_entries)
  have c: "strings_ToLower sampleLib ''HSET'' = ''hset''"
    "strings_ToLower sampleLib ''HDEL'' = ''hdel''"
    by (simp_all add: lower_defs)
  have d: "succeeded (fst (Exec sampleLib firstChoice makeDB [''HSET'', ''k'', ''f'', ''v'']))"
    by (simp add: Exec_def c init_entries validateArity_def execHSet_def store_defs)
  have e: "fst (Exec sampleLib firstChoice makeDB [''HDEL'', ''k'', ''f'']) = Returns (IntReply 0)"
    by (simp add: Exec_def c init_entries validateArity_def execHDel_def store_defs)
  show ?thesis
    using c d e
      aof_record [OF a, of firstChoice makeDB "[''k'', ''f'', ''v'']"]
      aof_record [OF b, of firstChoice makeDB "[''k'', ''f'']"]
    by auto
qed

text \<open>
  The claim as stated fails: \<open>HSETNX\<close> is a write command, on a field that exists it
  succeeds with reply 0, and nothing is handed to the sink.
\<close>

theorem aof_record_counterexample:
  "map_option flags (init ''hsetnx'' :: int command option) = Some flagWrite \<and>
   fst (Exec sampleLib firstChoice (snd (execHSetNX makeDB [''k'', ''f'', ''v'']))
          [''HSETNX'', ''k'', ''f'', ''w'']) = Returns (IntReply 0) \<and>
   succeeded (Returns (IntReply 0)) \<and>
   aof (snd (Exec sampleLib firstChoice (snd (execHSetNX makeDB [''k'', ''f'', ''v'']))
               [''HSETNX'', ''k'', ''f'', ''w''])) =
     aof (snd (execHSetNX makeDB [''k'', ''f'', ''v'']))"
  by (simp add: Exec_def lower_defs init_entries validateArity_def execHSetNX_def store_defs)

subsection \<open>No empty hash is kept\<close>

lemma putFields_nonempty: "fvs \<noteq> [] \<or> d \<noteq> [] \<Longrightarrow> putFields fvs d \<noteq> []"
proof (induction fvs arbitrary: d)
  case Nil
  then show ?case by (simp add: putFields_def)
next
  case (Cons fv fvs)
  have "putFields (fv # fvs) d = putFields fvs (AList.update (fst fv) (GoBytes (snd fv)) d)"
    by (simp add: putFields_def Put_def case_prod_beta)
  then show ?case using Cons.IH by simp
qed

lemma hmset_pairs_nonempty:
  assumes "length args \<ge> 3"
  shows "zip (hmsetFields args) (hmsetValues args) \<noteq> []"
proof -
  have "0 < (length args - 1) div 2"
    using assms by (simp add: div_greater_zero_iff)
  then have "[0..<(length args - 1) div 2] \<noteq> []"
    by simp
  then show ?thesis
    by (simp add: hmsetFields_def hmsetValues_def zip_eq_Nil_iff)
qed

lemma noEmpty_hset: "noEmptyDict db \<Longrightarrow> noEmptyDict (snd (execHSet db args))"
  unfolding noEmptyDict_def
  by (simp add: execHSet_def store_defs Let_def split: goal_splits; fastforce)

lemma noEmpty_hsetnx: "noEmptyDict db \<Longrightarrow> noEmptyDict (snd (execHSetNX db args))"
  unfolding noEmptyDict_def
  by (simp add: execHSetNX_def store_defs Let_def split: goal_splits; fastforce)

lemma noEmpty_hdel: "noEmptyDict db \<Longrightarrow> noEmptyDict (snd (execHDel db args))"
  unfolding noEmptyDict_def
  by (simp add: execHDel_def store_defs Let_def split: goal_splits; fastforce)

lemma noEmpty_hincrby: "noEmptyDict db \<Longrightarrow> noEmptyDict (snd (execHIncrBy db args))"
  unfolding noEmptyDict_def
  by (simp add: execHIncrBy_def store_defs Let_def split: goal_splits; fastforce)

lemma noEmpty_hincrbyfloat:
  "noEmptyDict db \<Longrightarrow> noEmptyDict (snd (execHIncrByFloat L db args))"
  unfolding noEmptyDict_def
  by (simp add: execHIncrByFloat_def store_defs Let_def split: goal_splits; fastforce)

lemma noEmpty_hmset:
  assumes "noEmptyDict db" "length args \<ge> 3"
  shows "noEmptyDict (snd (execHMSet db args))"
proof (cases args)
  case Nil
  then show ?thesis using assms by simp
next
  case (Cons key rest)
  have "putFields (zip (hmsetFields (key # rest)) (hmsetValues (key # rest))) d \<noteq> []" for d
    using putFields_nonempty hmset_pairs_nonempty[OF assms(2)] unfolding Cons by blast
  then show ?thesis
    using assms(1) unfolding noEmptyDict_def Cons
    by (simp add: execHMSet_def Let_def getOrInitDict_def getAsDict_def GetEntity_def
        PutEntity_def addAof_def ToCmdLine3_def storeDict_def MakeSimple_def split: goal_splits)
qed

lemma noEmpty_Exec:
  fixes L :: "'d golib"
  assumes "noEmptyDict db"
  shows "noEmptyDict (snd (Exec L rnd db cmdLine))"
proof (cases cmdLine)
  case Nil
  then show ?thesis using assms by (simp add: Exec_def)
next
  case (Cons name args)
  let ?cn = "strings_ToLower L name"
  show ?thesis
  proof (cases "init ?cn :: 'd command option")
    case None
    then show ?thesis using assms Cons by (simp add: Exec_def)
  next
    case (Some cmd)
    show ?thesis
    proof (cases "validateArity (arity cmd) (name # args)")
      case False
      then show ?thesis using assms Cons Some by (simp add: Exec_def)
    next
      case True
      then have ex: "Exec L rnd db cmdLine = executor cmd L rnd db args"
        using Cons Some by (simp add: Exec_def)
      have "?cn \<in> {''hset'', ''hsetnx'', ''hget'', ''hexists'', ''hdel'', ''hlen'', ''hstrlen'',
         ''hmset'', ''hmget'', ''hkeys'', ''hvals'', ''hgetall'', ''hincrby'', ''hincrbyfloat'',
         ''hrandfield''}"
        using Some by (rule init_table)
      then show ?thesis
        unfolding ex
        using Some True assms
        by (elim insertE emptyE)
           (auto simp add: init_entries readonly_state validateArity_def noEmpty_hset
              noEmpty_hsetnx noEmpty_hdel noEmpty_hincrby noEmpty_hincrbyfloat noEmpty_hmset)
    qed
  qed
qed

text \<open>
  C4. In every state that hash commands reach from the empty store, a key never holds a
  hash of length 0: each dispatched command that leaves a hash without fields removes its
  key in the same step.
\<close>

theorem no_empty_hash_reachable:
  assumes "reachable L db" and "data db k = Some (DataEntity (DictData d))"
  shows "Len d > 0"
proof -
  have "noEmptyDict db"
    using assms(1)
  proof (induction rule: reachable.induct)
    case reachable_init
    then show ?case by (simp add: noEmptyDict_def makeDB_def)
  next
    case (reachable_step db rnd cmdLine)
    then show ?case by (simp add: noEmpty_Exec)
  qed
  then have "d \<noteq> []" using assms(2) by (auto simp: noEmptyDict_def)
  then show ?thesis by (simp add: Len_def)
qed

theorem no_empty_hash_reachable_witness:
  "reachable sampleLib (snd (Exec sampleLib firstChoice makeDB [''HSET'', ''k'', ''f'', ''v''])) \<and>
   data (snd (Exec sampleLib firstChoice makeDB [''HSET'', ''k'', ''f'', ''v''])) ''k'' =
     Some (DataEntity (DictData [(''f'', GoString ''v'')])) \<and>
   Len [(''f'', GoString ''v'')] > 0 \<and>
   reachable sampleLib
     (snd (Exec sampleLib firstChoice
        (snd (Exec sampleLib firstChoice makeDB [''HSET'', ''k'', ''f'', ''v'']))
        [''HDEL'', ''k'', ''f''])) \<and>
   data (snd (Exec sampleLib firstChoice
        (snd (Exec sampleLib firstChoice makeDB [''HSET'', ''k'', ''f'', ''v'']))
        [''HDEL'', ''k'', ''f''])) ''k'' = None"
proof -
  let ?db1 = "snd (Exec sampleLib firstChoice makeDB [''HSET'', ''k'', ''f'', ''v''])"
  let ?db2 = "snd (Exec sampleLib firstChoice ?db1 [''HDEL'', ''k'', ''f''])"
  have r1: "reachable sampleLib ?db1"
    by (rule reachable_step) (rule reachable_init)
  have r2: "reachable sampleLib ?db2"
    by (rule reachable_step) (rule r1)
  have d1: "data ?db1 ''k'' = Some (DataEntity (DictData [(''f'', GoString ''v'')]))"
    by (simp add: Exec_def lower_defs init_entries validateArity_def execHSet_def store_defs)
  have d2: "data ?db2 ''k'' = None"
    by (simp add: Exec_def lower_defs init_entries validateArity_def execHSet_def execHDel_def
        removeFields_def store_defs)
  show ?thesis
    using r1 r2 d1 d2 no_empty_hash_reachable [OF r1 d1] by simp
qed

subsection \<open>HRANDFIELD: sampling\<close>

lemma pick_distinct_Nil [simp]: "pick_distinct rnd [] n = []"
  by (cases n) simp_all

lemma pick_distinct_step:
  "xs \<noteq> [] \<Longrightarrow>
   pick_distinct rnd xs (Suc n) =
     xs ! (rnd n mod length xs) #
     pick_distinct rnd (take (rnd n mod length xs) xs @ drop (Suc (rnd n mod length xs)) xs) n"
  by (cases xs) (simp_all add: Let_def)

lemma pick_distinct_props:
  "length (pick_distinct rnd ks n) = min n (length ks) \<and>
   set (pick_distinct rnd ks n) \<subseteq> set ks \<and>
   (distinct ks \<longrightarrow> distinct (pick_distinct rnd ks n))"
proof (induction n arbitrary: ks)
  case 0
  then show ?case by simp
next
  case (Suc n)
  show ?case
  proof (cases "ks = []")
    case True
    then show ?thesis by simp
  next
    case False
    define i where "i = rnd n mod length ks"
    define rest where "rest = take i ks @ drop (Suc i) ks"
    have i: "i < length ks" using False by (simp add: i_def)
    have step: "pick_distinct rnd ks (Suc n) = ks ! i # pick_distinct rnd rest n"
      using pick_distinct_step[OF False] by (simp add: i_def rest_def)
    have ks: "ks = take i ks @ ks ! i # drop (Suc i) ks"
      using i by (rule id_take_nth_drop)
    have len: "length rest = length ks - 1"
      using i by (simp add: rest_def min_def)
    have sub: "set rest \<subseteq> set ks"
      using set_take_subset[of i ks] set_drop_subset[of "Suc i" ks] by (auto simp: rest_def)
    have mem: "ks ! i \<in> set ks" using i by simp
    have dist: "distinct rest \<and> ks ! i \<notin> set rest" if "distinct ks"
    proof -
      have "distinct (take i ks @ ks ! i # drop (Suc i) ks)"
        using that ks by metis
      then show ?thesis by (auto simp: rest_def)
    qed
    have IH: "length (pick_distinct rnd rest n) = min n (length rest)"
      "set (pick_distinct rnd rest n) \<subseteq> set rest"
      "distinct rest \<Longrightarrow> distinct (pick_distinct rnd rest n)"
      using Suc.IH[of rest] by auto
    have l: "length (pick_distinct rnd ks (Suc n)) = min (Suc n) (length ks)"
      using IH(1) len i by (simp add: step)
    have s: "set (pick_distinct rnd ks (Suc n)) \<subseteq> set ks"
      using IH(2) sub mem by (auto simp: step)
    have d: "distinct (pick_distinct rnd ks (Suc n))" if "distinct ks"
      using dist[OF that] IH(2,3) by (auto simp: step)
    show ?thesis using l s d by blast
  qed
qed

lemma RandomKeys_props:
  assumes "d \<noteq> []" "0 \<le> limit"
  shows "\<exists>fs. RandomKeys rnd d limit = Some fs \<and> length fs = nat limit \<and> set fs \<subseteq> fst ` set d"
proof -
  have "fst (d ! (rnd i mod length d)) \<in> fst ` set d" for i
    using assms(1) by (intro imageI nth_mem) simp
  then show ?thesis
    using assms by (auto simp: RandomKeys_def)
qed

lemma wrap64_neg: "- (2 ^ 63) < n \<Longrightarrow> n < 0 \<Longrightarrow> wrap64 (- n) = - n"
  by (simp add: wrap64_def)


lemma removeFields_fst: "fst (removeFields fs (d, n)) = fold AList.delete fs d"
  unfolding removeFields_def
  by (induction fs arbitrary: d n) (simp_all add: Remove_def)

lemma fold_delete_distinct: "distinct (map fst d) \<Longrightarrow> distinct (map fst (fold AList.delete fs d))"
  by (induction fs arbitrary: d) (simp_all add: AList.distinct_delete)

lemma putFields_distinct: "distinct (map fst d) \<Longrightarrow> distinct (map fst (putFields fvs d))"
  unfolding putFields_def
  by (induction fvs arbitrary: d) (simp_all add: Put_def AList.distinct_update case_prod_beta)

lemma distinct_hset: "distinctDicts db \<Longrightarrow> distinctDicts (snd (execHSet db args))"
  unfolding distinctDicts_def
  by (simp add: execHSet_def store_defs Let_def AList.distinct_update split: goal_splits; fastforce)

lemma distinct_hsetnx: "distinctDicts db \<Longrightarrow> distinctDicts (snd (execHSetNX db args))"
  unfolding distinctDicts_def
  by (simp add: execHSetNX_def store_defs Let_def map_of_None_iff split: goal_splits; fastforce)

lemma removeFields_eqD: "removeFields fs (d, n) = (d', m) \<Longrightarrow> d' = fold AList.delete fs d"
  using removeFields_fst[of fs d n] by simp

lemma distinct_hdel: "distinctDicts db \<Longrightarrow> distinctDicts (snd (execHDel db args))"
  unfolding distinctDicts_def
  by (simp add: execHDel_def store_defs Let_def split: goal_splits;
      fastforce dest: removeFields_eqD simp: fold_delete_distinct)

lemma distinct_hmset: "distinctDicts db \<Longrightarrow> distinctDicts (snd (execHMSet db args))"
  unfolding distinctDicts_def
  by (simp add: execHMSet_def Let_def getOrInitDict_def getAsDict_def GetEntity_def
        PutEntity_def addAof_def ToCmdLine3_def storeDict_def MakeSimple_def putFields_distinct
        split: goal_splits; fastforce)

lemma distinct_hincrby: "distinctDicts db \<Longrightarrow> distinctDicts (snd (execHIncrBy db args))"
  unfolding distinctDicts_def
  by (simp add: execHIncrBy_def store_defs Let_def AList.distinct_update split: goal_splits; fastforce)

lemma distinct_hincrbyfloat:
  "distinctDicts db \<Longrightarrow> distinctDicts (snd (execHIncrByFloat L db args))"
  unfolding distinctDicts_def
  by (simp add: execHIncrByFloat_def store_defs Let_def AList.distinct_update split: goal_splits; fastforce)

lemma distinct_Exec:
  fixes L :: "'d golib"
  assumes "distinctDicts db"
  shows "distinctDicts (snd (Exec L rnd db cmdLine))"
proof (cases cmdLine)
  case Nil
  then show ?thesis using assms by (simp add: Exec_def)
next
  case (Cons name args)
  let ?cn = "strings_ToLower L name"
  show ?thesis
  proof (cases "init ?cn :: 'd command option")
    case None
    then show ?thesis using assms Cons by (simp add: Exec_def)
  next
    case (Some cmd)
    show ?thesis
    proof (cases "validateArity (arity cmd) (name # args)")
      case False
      then show ?thesis using assms Cons Some by (simp add: Exec_def)
    next
      case True
      then have ex: "Exec L rnd db cmdLine = executor cmd L rnd db args"
        using Cons Some by (simp add: Exec_def)
      have "?cn \<in> {''hset'', ''hsetnx'', ''hget'', ''hexists'', ''hdel'', ''hlen'', ''hstrlen'',
         ''hmset'', ''hmget'', ''hkeys'', ''hvals'', ''hgetall'', ''hincrby'', ''hincrbyfloat'',
         ''hrandfield''}"
        using Some by (rule init_table)
      then show ?thesis
        unfolding ex
        using Some assms
        by (elim insertE emptyE)
           (auto simp add: init_entries readonly_state distinct_hset
              distinct_hsetnx distinct_hdel distinct_hincrby distinct_hincrbyfloat distinct_hmset)
    qed
  qed
qed

lemma reachable_invariants: "reachable L db \<Longrightarrow> noEmptyDict db \<and> distinctDicts db"
proof (induction rule: reachable.induct)
  case reachable_init
  then show ?case by (simp add: noEmptyDict_def distinctDicts_def makeDB_def)
next
  case (reachable_step db rnd cmdLine)
  then show ?case by (simp add: noEmpty_Exec distinct_Exec)
qed

text \<open>
  C6 (the code departs from the claim). \<open>HRANDFIELD k n\<close> on an absent key returns the
  empty multi-bulk reply. On a hash of size \<open>m\<close> held by a reachable state, a count \<open>n > 0\<close>
  returns \<open>min(n, m)\<close> pairwise distinct field names of the hash, and a count \<open>n < 0\<close> above
  the least 64-bit integer returns exactly \<open>|n|\<close> field names of the hash, which may
  repeat. At the count \<open>-2^63\<close>, which \<^verbatim>\<open>strconv.ParseInt\<close> accepts, the negation
  \<^verbatim>\<open>-count\<close> overflows to \<open>-2^63\<close> again: \<^verbatim>\<open>RandomKeys\<close> is called with a negative limit and
  the executor returns no field names.
\<close>

theorem hrandfield_sampling:
  assumes "ParseInt c = Some n"
  shows "(data db k = None \<longrightarrow>
            execHRandField L rnd db [k, c] = (Returns EmptyMultiBulkReply, db)) \<and>
         (reachable L db \<and> data db k = Some (DataEntity (DictData d)) \<and> 0 < n \<longrightarrow>
            (\<exists>fs. execHRandField L rnd db [k, c] = (Returns (MultiBulkReply (map Some fs)), db) \<and>
                  length fs = min (nat n) (length d) \<and> distinct fs \<and> set fs \<subseteq> fst ` set d)) \<and>
         (reachable L db \<and> data db k = Some (DataEntity (DictData d)) \<and> n < 0 \<and> - (2 ^ 63) < n \<longrightarrow>
            (\<exists>fs. execHRandField L rnd db [k, c] = (Returns (MultiBulkReply (map Some fs)), db) \<and>
                  length fs = nat (- n) \<and> set fs \<subseteq> fst ` set d)) \<and>
         (data db k = Some (DataEntity (DictData d)) \<and> n = - (2 ^ 63) \<longrightarrow>
            execHRandField L rnd db [k, c] = (Panics, db))"
proof (intro conjI impI)
  assume "data db k = None"
  then show "execHRandField L rnd db [k, c] = (Returns EmptyMultiBulkReply, db)"
    using assms by (simp add: execHRandField_def getAsDict_def GetEntity_def)
next
  assume a: "reachable L db \<and> data db k = Some (DataEntity (DictData d)) \<and> 0 < n"
  then have dist: "distinct (map fst d)"
    using reachable_invariants[of L db] by (auto simp: distinctDicts_def)
  let ?fs = "pick_distinct rnd (map fst d) (nat n)"
  have "execHRandField L rnd db [k, c] = (Returns (MultiBulkReply (map Some ?fs)), db)"
    using a assms
    by (simp add: execHRandField_def getAsDict_def GetEntity_def RandomDistinctKeys_def
        randFieldReply_def)
  moreover have "length ?fs = min (nat n) (length d)" "distinct ?fs" "set ?fs \<subseteq> fst ` set d"
    using pick_distinct_props[of rnd "map fst d" "nat n"] dist by auto
  ultimately show "\<exists>fs. execHRandField L rnd db [k, c] = (Returns (MultiBulkReply (map Some fs)), db) \<and>
                  length fs = min (nat n) (length d) \<and> distinct fs \<and> set fs \<subseteq> fst ` set d"
    by blast
next
  assume a: "reachable L db \<and> data db k = Some (DataEntity (DictData d)) \<and> n < 0 \<and> - (2 ^ 63) < n"
  then have ne: "d \<noteq> []"
    using reachable_invariants[of L db] by (auto simp: noEmptyDict_def)
  have w: "wrap64 (- n) = - n" using a by (simp add: wrap64_neg)
  obtain fs where fs: "RandomKeys rnd d (- n) = Some fs" "length fs = nat (- n)"
      "set fs \<subseteq> fst ` set d"
    using RandomKeys_props[OF ne, of "- n" rnd] a by auto
  have "execHRandField L rnd db [k, c] = (Returns (MultiBulkReply (map Some fs)), db)"
    using a assms fs(1) w
    by (simp add: execHRandField_def getAsDict_def GetEntity_def randFieldReply_def)
  then show "\<exists>fs. execHRandField L rnd db [k, c] = (Returns (MultiBulkReply (map Some fs)), db) \<and>
                  length fs = nat (- n) \<and> set fs \<subseteq> fst ` set d"
    using fs by blast
next
  assume "data db k = Some (DataEntity (DictData d)) \<and> n = - (2 ^ 63)"
  then show "execHRandField L rnd db [k, c] = (Panics, db)"
    using assms
    by (simp add: execHRandField_def getAsDict_def GetEntity_def wrap64_def RandomKeys_def
        randFieldReply_def)
qed


theorem hrandfield_sampling_witness:
  "reachable sampleLib
     (snd (Exec sampleLib firstChoice
        (snd (Exec sampleLib firstChoice makeDB [''HSETNX'', ''k'', ''a'', ''1'']))
        [''HSETNX'', ''k'', ''b'', ''2''])) \<and>
   data (snd (Exec sampleLib firstChoice
        (snd (Exec sampleLib firstChoice makeDB [''HSETNX'', ''k'', ''a'', ''1'']))
        [''HSETNX'', ''k'', ''b'', ''2''])) ''k'' =
     Some (DataEntity (DictData [(''a'', GoBytes ''1''), (''b'', GoBytes ''2'')])) \<and>
   ParseInt ''-5'' = Some (- 5) \<and> ParseInt ''5'' = Some 5 \<and>
   (\<exists>fs. fst (execHRandField sampleLib firstChoice
        (snd (Exec sampleLib firstChoice
          (snd (Exec sampleLib firstChoice makeDB [''HSETNX'', ''k'', ''a'', ''1'']))
          [''HSETNX'', ''k'', ''b'', ''2''])) [''k'', ''-5'']) =
        Returns (MultiBulkReply (map Some fs)) \<and>
      length fs = 5 \<and> set fs \<subseteq> {''a'', ''b''}) \<and>
   (\<exists>fs. fst (execHRandField sampleLib firstChoice
        (snd (Exec sampleLib firstChoice
          (snd (Exec sampleLib firstChoice makeDB [''HSETNX'', ''k'', ''a'', ''1'']))
          [''HSETNX'', ''k'', ''b'', ''2''])) [''k'', ''5'']) =
        Returns (MultiBulkReply (map Some fs)) \<and>
      length fs = 2 \<and> distinct fs \<and> set fs \<subseteq> {''a'', ''b''}) \<and>
   fst (execHRandField sampleLib firstChoice
        (snd (Exec sampleLib firstChoice
          (snd (Exec sampleLib firstChoice makeDB [''HSETNX'', ''k'', ''a'', ''1'']))
          [''HSETNX'', ''k'', ''b'', ''2''])) [''k'', ''-5'']) =
     Returns (MultiBulkReply [Some ''a'', Some ''a'', Some ''a'', Some ''a'', Some ''a'']) \<and>
   ParseInt ''-9223372036854775808'' = Some (- (2 ^ 63)) \<and>
   fst (execHRandField sampleLib firstChoice
        (snd (Exec sampleLib firstChoice
          (snd (Exec sampleLib firstChoice makeDB [''HSETNX'', ''k'', ''a'', ''1'']))
          [''HSETNX'', ''k'', ''b'', ''2''])) [''k'', ''-9223372036854775808'']) = Panics"
proof -
  let ?db1 = "snd (Exec sampleLib firstChoice makeDB [''HSETNX'', ''k'', ''a'', ''1''])"
  let ?db2 = "snd (Exec sampleLib firstChoice ?db1 [''HSETNX'', ''k'', ''b'', ''2''])"
  let ?d = "[(''a'', GoBytes ''1''), (''b'', GoBytes ''2'')]"
  have r: "reachable sampleLib ?db2"
    by (intro reachable_step reachable_init)
  have d: "data ?db2 ''k'' = Some (DataEntity (DictData ?d))"
    by (simp add: Exec_def Let_def lower_defs init_entries validateArity_def execHSetNX_def
        store_defs)
  have p: "ParseInt ''-5'' = Some (- 5)" "ParseInt ''5'' = Some 5"
    by (simp_all add: parse_defs)
  have e: "fst (execHRandField sampleLib firstChoice ?db2 [''k'', ''-5'']) =
     Returns (MultiBulkReply [Some ''a'', Some ''a'', Some ''a'', Some ''a'', Some ''a''])"
    by (simp add: execHRandField_def p getAsDict_def GetEntity_def d randFieldReply_def
        RandomKeys_def wrap64_def firstChoice_def upt_rec)
  have neg: "\<exists>fs. fst (execHRandField sampleLib firstChoice ?db2 [''k'', ''-5'']) =
        Returns (MultiBulkReply (map Some fs)) \<and> length fs = 5 \<and> set fs \<subseteq> {''a'', ''b''}"
    using hrandfield_sampling [OF p(1), of ?db2 "''k''" sampleLib firstChoice ?d] r d
    by auto
  have pos: "\<exists>fs. fst (execHRandField sampleLib firstChoice ?db2 [''k'', ''5'']) =
        Returns (MultiBulkReply (map Some fs)) \<and> length fs = 2 \<and> distinct fs \<and>
        set fs \<subseteq> {''a'', ''b''}"
    using hrandfield_sampling [OF p(2), of ?db2 "''k''" sampleLib firstChoice ?d] r d
    by auto
  have m: "ParseInt ''-9223372036854775808'' = Some (- (2 ^ 63))"
    by (simp add: parse_defs)
  have least: "fst (execHRandField sampleLib firstChoice ?db2 [''k'', ''-9223372036854775808'']) =
     Panics"
    using hrandfield_sampling [OF m, of ?db2 "''k''" sampleLib firstChoice ?d] d
    by simp
  show ?thesis
    using r d p e neg pos m least by blast
qed

subsection \<open>Undo\<close>

lemma fieldBytes_storeDict:
  "fieldBytes (storeDict db key d) key g = map_option val_bytes (map_of d g)"
  by (simp add: fieldBytes_def fieldOf_def store_defs)

lemma fieldBytes_dict:
  "data db key = Some (DataEntity (DictData d)) \<Longrightarrow> fieldBytes db key g = map_option val_bytes (map_of d g)"
  by (simp add: fieldBytes_def fieldOf_def store_defs)

lemma fieldBytes_absent:
  "data db key = None \<Longrightarrow> fieldBytes db key g = None"
  by (simp add: fieldBytes_def fieldOf_def store_defs)

lemma fieldBytes_other:
  "holdsOther db key \<Longrightarrow> fieldBytes db key g = None"
  by (simp add: fieldBytes_def fieldOf_def holdsOther_iff)

lemma fieldBytes_data_cong: "data db' key = data db key \<Longrightarrow> fieldBytes db' key g = fieldBytes db key g"
  by (simp add: fieldBytes_def fieldOf_def getAsDict_def GetEntity_def)

lemma holdsOther_data_cong: "data db' key = data db key \<Longrightarrow> holdsOther db' key = holdsOther db key"
  by (simp add: holdsOther_def getAsDict_def GetEntity_def)

lemma step_hset:
  assumes "\<not> holdsOther db key"
  shows "fieldBytes (snd (execHSet db [key, f, b])) key g = (if g = f then Some b else fieldBytes db key g)"
    and "\<not> holdsOther (snd (execHSet db [key, f, b])) key"
  using assms
  by (cases db key rule: getAsDict_cases;
      simp add: execHSet_def fieldBytes_def fieldOf_def holdsOther_def store_defs AList.update_conv')+

lemma map_of_empty_iff: "d = [] \<Longrightarrow> map_of d g = None" by simp

lemma step_hdel:
  assumes "\<not> holdsOther db key"
  shows "fieldBytes (snd (execHDel db [key, f])) key g = (if g = f then None else fieldBytes db key g)"
    and "\<not> holdsOther (snd (execHDel db [key, f])) key"
proof -
  have del_empty: "map_of d g = None" if "AList.delete f d = []" "g \<noteq> f" for d :: Dict
    using that AList.delete_conv'[of f d] by (metis fun_upd_other map_of.simps(1))
  show "fieldBytes (snd (execHDel db [key, f])) key g = (if g = f then None else fieldBytes db key g)"
    using assms del_empty
    by (cases db key rule: getAsDict_cases)
       (auto simp add: execHDel_def removeFields_def fieldBytes_def fieldOf_def holdsOther_def store_defs
         AList.delete_conv' Let_def)
  show "\<not> holdsOther (snd (execHDel db [key, f])) key"
    using assms
    by (cases db key rule: getAsDict_cases)
       (auto simp add: execHDel_def removeFields_def holdsOther_def store_defs Let_def)
qed

lemma lower_HSET: "strings_ToLower L ''HSET'' = ''hset''" "strings_ToLower L ''HDEL'' = ''hdel''"
  by (simp_all add: lower_defs)

lemma Exec_HSET: "Exec L rnd db [''HSET'', key, f, b] = execHSet db [key, f, b]"
  by (simp add: Exec_def lower_HSET init_entries validateArity_def)

lemma Exec_HDEL: "Exec L rnd db [''HDEL'', key, f] = execHDel db [key, f]"
  by (simp add: Exec_def lower_HSET init_entries validateArity_def)

lemma step_snapshot:
  assumes "\<not> holdsOther db1 key"
  shows "fieldBytes (snd (Exec L rnd db1 (snapshotLine db key f))) key g =
           (if g = f then fieldBytes db key f else fieldBytes db1 key g)"
    and "\<not> holdsOther (snd (Exec L rnd db1 (snapshotLine db key f))) key"
  using assms step_hset[OF assms] step_hdel[OF assms]
  by (auto simp: snapshotLine_def Exec_HSET Exec_HDEL split: option.splits)

lemma replay_restores:
  assumes "\<not> holdsOther db1 key"
  shows "fieldBytes (replay L rnd (map (snapshotLine db key) fs) db1) key g =
           (if g \<in> set fs then fieldBytes db key g else fieldBytes db1 key g)"
  using assms
proof (induction fs arbitrary: db1)
  case Nil
  then show ?case by (simp add: replay_def)
next
  case (Cons f fs)
  let ?db = "snd (Exec L rnd db1 (snapshotLine db key f))"
  have r: "replay L rnd (map (snapshotLine db key) (f # fs)) db1 =
           replay L rnd (map (snapshotLine db key) fs) ?db"
    by (simp add: replay_def)
  show ?case
    unfolding r
    using Cons.IH[of ?db] step_snapshot[OF Cons.prems, of L rnd db f]
    by auto
qed

lemma rollback_snapshot:
  "\<not> holdsOther db key \<Longrightarrow> rollbackHashFields db key fs = map (snapshotLine db key) fs"
  by (cases db key rule: getAsDict_cases)
     (auto simp: rollbackHashFields_def snapshotLine_def fieldBytes_def fieldOf_def holdsOther_def
        split: option.splits)

lemma rollback_other: "holdsOther db key \<Longrightarrow> rollbackHashFields db key fs = []"
  by (simp add: rollbackHashFields_def holdsOther_iff)

lemma restore_generic:
  assumes frame: "\<not> holdsOther db key \<Longrightarrow>
            \<not> holdsOther db1 key \<and> (\<forall>g. g \<notin> set fs \<longrightarrow> fieldBytes db1 key g = fieldBytes db key g)"
      and other: "holdsOther db key \<Longrightarrow> db1 = db"
  shows "fieldBytes (replay L rnd (rollbackHashFields db key fs) db1) key g = fieldBytes db key g"
proof (cases "holdsOther db key")
  case True
  then show ?thesis using other by (simp add: rollback_other replay_def)
next
  case False
  then show ?thesis
    using frame replay_restores[of db1 key L rnd db fs g]
    by (simp add: rollback_snapshot)
qed

lemma map_of_fold_delete:
  "map_of (fold AList.delete fs d) g = (if g \<in> set fs then None else map_of d g)"
  by (induction fs arbitrary: d) (auto simp: AList.delete_conv')

lemma map_of_putFields:
  "g \<notin> fst ` set fvs \<Longrightarrow> map_of (putFields fvs d) g = map_of d g"
  unfolding putFields_def
  by (induction fvs arbitrary: d) (auto simp: Put_def AList.update_conv')

lemma hmsetFields_Cons2:
  "hmsetFields (k # f # v # rest) = f # hmsetFields (k # rest)"
proof -
  have "(length (k # f # v # rest) - 1) div 2 = Suc ((length (k # rest) - 1) div 2)"
    by simp
  then show ?thesis
    unfolding hmsetFields_def by (simp add: map_upt_Suc del: upt_Suc)
qed

lemma hmsetFields_pairs: "hmsetFields (k # rest) = fieldsOfPairs rest"
proof (induction rest rule: fieldsOfPairs.induct)
  case (1 f v rest)
  then show ?case by (simp add: hmsetFields_Cons2)
qed (simp_all add: hmsetFields_def)

lemma frame_hset:
  assumes "\<not> holdsOther db key"
  shows "\<not> holdsOther (snd (execHSet db (key # f # rest))) key \<and>
    (g \<noteq> f \<longrightarrow> fieldBytes (snd (execHSet db (key # f # rest))) key g = fieldBytes db key g)"
  using assms
  by (cases db key rule: getAsDict_cases; cases rest;
      simp add: execHSet_def fieldBytes_def fieldOf_def holdsOther_def store_defs AList.update_conv')

lemma frame_hsetnx:
  assumes "\<not> holdsOther db key"
  shows "\<not> holdsOther (snd (execHSetNX db (key # f # rest))) key \<and>
    (g \<noteq> f \<longrightarrow> fieldBytes (snd (execHSetNX db (key # f # rest))) key g = fieldBytes db key g)"
  using assms
  by (cases db key rule: getAsDict_cases; cases rest;
      simp add: execHSetNX_def fieldBytes_def fieldOf_def holdsOther_def store_defs map_add_def
        split: option.split)

lemma frame_hincrby:
  assumes "\<not> holdsOther db key"
  shows "\<not> holdsOther (snd (execHIncrBy db (key # f # rest))) key \<and>
    (g \<noteq> f \<longrightarrow> fieldBytes (snd (execHIncrBy db (key # f # rest))) key g = fieldBytes db key g)"
  using assms
  by (cases db key rule: getAsDict_cases; cases rest;
      simp add: execHIncrBy_def fieldBytes_def fieldOf_def holdsOther_def store_defs AList.update_conv'
        Let_def split: option.split anyval.split)

lemma frame_hincrbyfloat:
  assumes "\<not> holdsOther db key"
  shows "\<not> holdsOther (snd (execHIncrByFloat L db (key # f # rest))) key \<and>
    (g \<noteq> f \<longrightarrow> fieldBytes (snd (execHIncrByFloat L db (key # f # rest))) key g = fieldBytes db key g)"
  using assms
  by (cases db key rule: getAsDict_cases; cases rest;
      simp add: execHIncrByFloat_def fieldBytes_def fieldOf_def holdsOther_def store_defs AList.update_conv'
        Let_def split: option.split anyval.split)


lemma frame_hdel:
  assumes "\<not> holdsOther db key"
  shows "\<not> holdsOther (snd (execHDel db (key # fs))) key \<and>
    (g \<notin> set fs \<longrightarrow> fieldBytes (snd (execHDel db (key # fs))) key g = fieldBytes db key g)"
proof (cases db key rule: getAsDict_cases)
  case absent
  then show ?thesis using assms by (simp add: execHDel_def)
next
  case other
  then show ?thesis using assms by (simp add: holdsOther_iff)
next
  case (dict d)
  let ?d' = "fold AList.delete fs d"
  obtain n where r: "removeFields fs (d, 0) = (?d', n)"
    using removeFields_fst[of fs d 0] by (cases "removeFields fs (d, 0)") simp
  have s: "data (snd (execHDel db (key # fs))) =
        (if ?d' = [] then (data db)(key := None) else (data db)(key \<mapsto> DataEntity (DictData ?d')))"
    by (auto simp: execHDel_def dict r Let_def storeDict_def RemoveKey_def Len_def addAof_def)
  have a: "\<not> holdsOther (snd (execHDel db (key # fs))) key"
    by (simp add: holdsOther_def getAsDict_def GetEntity_def s)
  have b: "fieldBytes (snd (execHDel db (key # fs))) key g = fieldBytes db key g" if "g \<notin> set fs"
  proof -
    have m: "map_of ?d' g = map_of d g"
      using that by (simp add: map_of_fold_delete)
    show ?thesis
    proof (cases "?d' = []")
      case True
      then have "map_of d g = None" using m by simp
      then show ?thesis
        using True dict(1) by (simp add: fieldBytes_def fieldOf_def getAsDict_def GetEntity_def s Get_def)
    next
      case False
      then show ?thesis
        using m dict(1) by (simp add: fieldBytes_def fieldOf_def getAsDict_def GetEntity_def s Get_def)
    qed
  qed
  show ?thesis using a b by blast
qed

lemma frame_hmset:
  assumes "\<not> holdsOther db key"
  shows "\<not> holdsOther (snd (execHMSet db (key # rest))) key \<and>
    (g \<notin> set (fieldsOfPairs rest) \<longrightarrow>
       fieldBytes (snd (execHMSet db (key # rest))) key g = fieldBytes db key g)"
proof (cases "length (key # rest) mod 2 = 1")
  case False
  then show ?thesis using assms by (simp add: execHMSet_def)
next
  case True
  let ?fvs = "zip (hmsetFields (key # rest)) (hmsetValues (key # rest))"
  have sub: "fst ` set ?fvs \<subseteq> set (fieldsOfPairs rest)"
    using set_zip_leftD[of _ _ "hmsetFields (key # rest)" "hmsetValues (key # rest)"]
    by (auto simp: hmsetFields_pairs)
  have m: "g \<notin> set (fieldsOfPairs rest) \<Longrightarrow> map_of (putFields ?fvs d) g = map_of d g" for d
    using sub by (intro map_of_putFields) blast
  show ?thesis
    using assms True m
    by (cases db key rule: getAsDict_cases)
       (simp_all add: execHMSet_def Let_def fieldBytes_def fieldOf_def holdsOther_def store_defs
          del: length_Cons)
qed

lemma undo_cases [consumes 2]:
  fixes cmd :: "'d command"
  assumes "init cn = Some cmd" "undo cmd = Some un"
  obtains
      (hset) "cn = ''hset''" "un = undoHSet" "executor cmd = (\<lambda>L rnd. execHSet)" "arity cmd = 4"
    | (hsetnx) "cn = ''hsetnx''" "un = undoHSet" "executor cmd = (\<lambda>L rnd. execHSetNX)"
        "arity cmd = 4"
    | (hdel) "cn = ''hdel''" "un = undoHDel" "executor cmd = (\<lambda>L rnd. execHDel)"
    | (hmset) "cn = ''hmset''" "un = undoHMSet" "executor cmd = (\<lambda>L rnd. execHMSet)"
    | (hincrby) "cn = ''hincrby''" "un = undoHIncr" "executor cmd = (\<lambda>L rnd. execHIncrBy)"
        "arity cmd = 4"
    | (hincrbyfloat) "cn = ''hincrbyfloat''" "un = undoHIncr"
        "executor cmd = (\<lambda>L rnd. execHIncrByFloat L)" "arity cmd = 4"
proof -
  have "cn \<in> {''hset'', ''hsetnx'', ''hget'', ''hexists'', ''hdel'', ''hlen'', ''hstrlen'',
     ''hmset'', ''hmget'', ''hkeys'', ''hvals'', ''hgetall'', ''hincrby'', ''hincrbyfloat'',
     ''hrandfield''}"
    using assms(1) by (rule init_table)
  then show thesis
    using assms that
    by (elim insertE emptyE) (auto simp add: init_entries)
qed

lemma restore_fields:
  assumes "\<And>g. \<not> holdsOther db key \<Longrightarrow>
            \<not> holdsOther db1 key \<and> (g \<notin> set fs \<longrightarrow> fieldBytes db1 key g = fieldBytes db key g)"
      and "holdsOther db key \<Longrightarrow> db1 = db"
  shows "(\<not> holdsOther db key \<longrightarrow> rollbackHashFields db key fs = map (snapshotLine db key) fs) \<and>
         (\<forall>g. fieldBytes (replay L rnd (rollbackHashFields db key fs) db1) key g = fieldBytes db key g)"
  using restore_generic[of db key db1 fs L rnd] assms rollback_snapshot[of db key fs]
  by blast

text \<open>
  What does hold of the undo generators: for each write command with an undo generator and
  each argument list that passes its arity, the rollback lines are one per field the
  command names, in their order, "HSET key field bytes" for a field that was there and
  "HDEL key field" for one that was not; replaying them after the executor leaves every
  field of the key with the bytes it had before, or absent if it was absent.
\<close>

lemma undo_restores_bytes:
  fixes L :: "'d golib" and cmd :: "'d command"
  assumes "init cn = Some cmd" and "undo cmd = Some un"
    and "validateArity (arity cmd) (cn # key # rest)"
  shows "\<exists>lines. un db (key # rest) = Some lines \<and>
           (\<not> holdsOther db key \<longrightarrow>
              lines = map (snapshotLine db key) (namedFields cn (key # rest))) \<and>
           (\<forall>f. fieldBytes (replay L rnd' lines (snd (executor cmd L rnd db (key # rest)))) key f =
                 fieldBytes db key f)"
proof -
  from assms(1,2) show ?thesis
  proof (cases rule: undo_cases)
    case hset
    then obtain f rest' where rest: "rest = f # rest'"
      using assms(3) by (cases rest) (auto simp: validateArity_def)
    show ?thesis
      using restore_fields[of db key "snd (execHSet db (key # f # rest'))" "[f]" L rnd']
        frame_hset[of db key f rest'] other_write_state(1)[of db key "f # rest'"]
      by (simp add: hset rest undoHSet_def namedFields_def)
  next
    case hsetnx
    then obtain f rest' where rest: "rest = f # rest'"
      using assms(3) by (cases rest) (auto simp: validateArity_def)
    show ?thesis
      using restore_fields[of db key "snd (execHSetNX db (key # f # rest'))" "[f]" L rnd']
        frame_hsetnx[of db key f rest'] other_write_state(2)[of db key "f # rest'"]
      by (simp add: hsetnx rest undoHSet_def namedFields_def)
  next
    case hdel
    show ?thesis
      using restore_fields[of db key "snd (execHDel db (key # rest))" rest L rnd']
        frame_hdel[of db key rest] other_write_state(3)[of db key rest]
      by (simp add: hdel undoHDel_def namedFields_def)
  next
    case hmset
    show ?thesis
      using restore_fields[of db key "snd (execHMSet db (key # rest))" "fieldsOfPairs rest" L rnd']
        frame_hmset[of db key rest] other_write_state(4)[of db key rest]
      by (simp add: hmset undoHMSet_def namedFields_def hmsetFields_pairs)
  next
    case hincrby
    then obtain f rest' where rest: "rest = f # rest'"
      using assms(3) by (cases rest) (auto simp: validateArity_def)
    show ?thesis
      using restore_fields[of db key "snd (execHIncrBy db (key # f # rest'))" "[f]" L rnd']
        frame_hincrby[of db key f rest'] other_write_state(5)[of db key "f # rest'"]
      by (simp add: hincrby rest undoHIncr_def namedFields_def)
  next
    case hincrbyfloat
    then obtain f rest' where rest: "rest = f # rest'"
      using assms(3) by (cases rest) (auto simp: validateArity_def)
    show ?thesis
      using restore_fields[of db key "snd (execHIncrByFloat L db (key # f # rest'))" "[f]" L rnd']
        frame_hincrbyfloat[of db key L f rest'] other_write_state(6)[of db key L "f # rest'"]
      by (simp add: hincrbyfloat rest undoHIncr_def namedFields_def)
  qed
qed

lemma fieldOf_dict:
  "fieldOf db k f = Some v \<Longrightarrow> \<exists>d. getAsDict db k = Inr (Some d) \<and> map_of d f = Some v"
  by (cases db k rule: getAsDict_cases) (auto simp: fieldOf_def Get_def)

lemma hset_stores_string:
  assumes "\<not> holdsOther db key"
  shows "fieldOf (snd (execHSet db [key, f, b])) key f = Some (GoString b)"
  using assms
  by (cases db key rule: getAsDict_cases;
      simp add: execHSet_def fieldOf_def holdsOther_def store_defs AList.update_conv')

lemma hget_of_string:
  "fieldOf db k f = Some (GoString s) \<Longrightarrow> execHGet db [k, f] = (Returns (BulkReply None), db)"
  by (auto dest!: fieldOf_dict simp: execHGet_def Get_def)

lemma hget_of_bytes:
  "fieldOf db k f = Some (GoBytes b) \<Longrightarrow>
   execHGet db [k, f] = (Returns (BulkReply (Some b)), db)"
  by (auto dest!: fieldOf_dict simp: execHGet_def Get_def)

lemma hincrby_of_string:
  "fieldOf db k f = Some (GoString s) \<Longrightarrow> execHIncrBy db [k, f, ''5''] = (Panics, db)"
  by (auto dest!: fieldOf_dict simp: execHIncrBy_def getOrInitDict_def Get_def parse_defs)

text \<open>
  C2 (the code departs from the claim). The undo generator covers the named field and the
  rollback line carries its prior bytes, but replaying the line does not restore the
  field to its prior value. For a field that holds a byte slice \<open>b\<close>, the undo of
  \<open>HINCRBY k f delta\<close> is the line \<open>HSET k f b\<close>; replayed after the executor, whatever the
  executor did, it goes through \<^verbatim>\<open>execHSet\<close>, which stores \<open>b\<close> as a Go string. Before the
  command \<open>HGET k f\<close> returned \<open>b\<close>; after the rollback it returns the nil bulk, and
  \<open>HINCRBY k f 5\<close> panics.
\<close>

theorem undo_replay_go_string:
  assumes "fieldOf db k f = Some (GoBytes b)"
  shows "undoHIncr db [k, f, delta] = Some [[''HSET'', k, f, b]] \<and>
         execHGet db [k, f] = (Returns (BulkReply (Some b)), db) \<and>
         fieldOf (replay L rnd [[''HSET'', k, f, b]] (snd (execHIncrBy db [k, f, delta]))) k f =
           Some (GoString b) \<and>
         fst (execHGet (replay L rnd [[''HSET'', k, f, b]] (snd (execHIncrBy db [k, f, delta])))
                [k, f]) = Returns (BulkReply None) \<and>
         fst (execHIncrBy (replay L rnd [[''HSET'', k, f, b]] (snd (execHIncrBy db [k, f, delta])))
                [k, f, ''5'']) = Panics"
proof -
  let ?db1 = "snd (execHIncrBy db [k, f, delta])"
  let ?db2 = "replay L rnd [[''HSET'', k, f, b]] ?db1"
  obtain d where d: "getAsDict db k = Inr (Some d)" "map_of d f = Some (GoBytes b)"
    using fieldOf_dict[OF assms] by blast
  have no: "\<not> holdsOther db k"
    using d(1) by (simp add: holdsOther_def)
  have u: "undoHIncr db [k, f, delta] = Some [[''HSET'', k, f, b]]"
    using d by (simp add: undoHIncr_def rollbackHashFields_def Get_def)
  have g: "execHGet db [k, f] = (Returns (BulkReply (Some b)), db)"
    using assms by (rule hget_of_bytes)
  have no1: "\<not> holdsOther ?db1 k"
    using frame_hincrby[OF no, of f "[delta]"] by simp
  have r: "?db2 = snd (execHSet ?db1 [k, f, b])"
    by (simp add: replay_def Exec_HSET)
  have s: "fieldOf ?db2 k f = Some (GoString b)"
    unfolding r using no1 by (rule hset_stores_string)
  show ?thesis
    using u g s hget_of_string[OF s] hincrby_of_string[OF s] by simp
qed

theorem undo_replay_go_string_witness:
  "fieldOf (snd (execHSetNX makeDB [''k'', ''f'', ''1''])) ''k'' ''f'' = Some (GoBytes ''1'') \<and>
   undoHIncr (snd (execHSetNX makeDB [''k'', ''f'', ''1''])) [''k'', ''f'', ''5''] =
     Some [[''HSET'', ''k'', ''f'', ''1'']] \<and>
   fst (execHGet (snd (execHSetNX makeDB [''k'', ''f'', ''1''])) [''k'', ''f'']) =
     Returns (BulkReply (Some ''1'')) \<and>
   fieldOf (snd (execHIncrBy (snd (execHSetNX makeDB [''k'', ''f'', ''1''])) [''k'', ''f'', ''5'']))
     ''k'' ''f'' = Some (GoBytes ''6'') \<and>
   fieldOf (replay sampleLib firstChoice [[''HSET'', ''k'', ''f'', ''1'']]
      (snd (execHIncrBy (snd (execHSetNX makeDB [''k'', ''f'', ''1''])) [''k'', ''f'', ''5''])))
     ''k'' ''f'' = Some (GoString ''1'') \<and>
   fst (execHGet (replay sampleLib firstChoice [[''HSET'', ''k'', ''f'', ''1'']]
      (snd (execHIncrBy (snd (execHSetNX makeDB [''k'', ''f'', ''1''])) [''k'', ''f'', ''5''])))
     [''k'', ''f'']) = Returns (BulkReply None) \<and>
   fst (execHIncrBy (replay sampleLib firstChoice [[''HSET'', ''k'', ''f'', ''1'']]
      (snd (execHIncrBy (snd (execHSetNX makeDB [''k'', ''f'', ''1''])) [''k'', ''f'', ''5''])))
     [''k'', ''f'', ''5'']) = Panics"
proof -
  let ?db = "snd (execHSetNX makeDB [''k'', ''f'', ''1''])"
  have dbv: "?db = \<lparr>data = [''k'' \<mapsto> DataEntity (DictData [(''f'', GoBytes ''1'')])],
                   aof = [[''hsetnx'', ''k'', ''f'', ''1'']]\<rparr>"
    by (simp add: execHSetNX_def store_defs)
  have a: "fieldOf ?db ''k'' ''f'' = Some (GoBytes ''1'')"
    unfolding dbv by (simp add: fieldOf_def getAsDict_def GetEntity_def Get_def)
  have six: "fieldOf (snd (execHIncrBy ?db [''k'', ''f'', ''5''])) ''k'' ''f'' = Some (GoBytes ''6'')"
    unfolding dbv
    by (simp add: execHIncrBy_def fieldOf_def getOrInitDict_def getAsDict_def GetEntity_def
        Get_def Put_def storeDict_def addAof_def ToCmdLine3_def parse_defs wrap64_def
        FormatInt_def format_nat.simps digit_char_def Let_def)
  show ?thesis
    using a six undo_replay_go_string [OF a, of "''5''" sampleLib firstChoice]
    by simp
qed

end
